theory Spec2Isabelle
  imports Main "HOL-Library.Word"
begin

section \<open>Go standard-library helpers used by consul.go\<close>

text \<open>
  Strings are byte lists (UTF-8, as in Go). On a string of ASCII bytes only,
  \<open>strings.ToUpper\<close> maps \<open>a..z\<close> to \<open>A..Z\<close> and \<open>strings.TrimSpace\<close> removes the leading
  and trailing bytes among space, \<open>\t\<close>, \<open>\n\<close>, \<open>\v\<close>, \<open>\f\<close> and \<open>\r\<close>; these are
  \<open>ascii_ToUpper\<close> and \<open>ascii_TrimSpace\<close>. On a string with a byte outside ASCII both
  functions are Unicode-aware; there they are parameters of the model (\<open>unicode_ToUpper\<close>
  and \<open>unicode_TrimSpace\<close> of the record \<open>library\<close> below). \<open>strings.ToLower\<close> is only
  ever applied to the literals \<open>HTTP\<close> and \<open>HTTPS\<close> (line 331, inside the first case of the
  switch), where it maps \<open>A..Z\<close> to \<open>a..z\<close>.
\<close>

definition lower_letters :: string where
  "lower_letters = ''abcdefghijklmnopqrstuvwxyz''"

definition upper_letters :: string where
  "upper_letters = ''ABCDEFGHIJKLMNOPQRSTUVWXYZ''"

definition toUpper_char :: "char \<Rightarrow> char" where
  "toUpper_char c = (case map_of (zip lower_letters upper_letters) c of Some u \<Rightarrow> u | None \<Rightarrow> c)"

definition toLower_char :: "char \<Rightarrow> char" where
  "toLower_char c = (case map_of (zip upper_letters lower_letters) c of Some l \<Rightarrow> l | None \<Rightarrow> c)"

definition is_ascii :: "string \<Rightarrow> bool" where
  "is_ascii s = list_all (\<lambda>ch. \<not> digit7 ch) s"

definition ascii_ToUpper :: "string \<Rightarrow> string" where
  "ascii_ToUpper s = map toUpper_char s"

definition ToLower :: "string \<Rightarrow> string" where
  "ToLower s = map toLower_char s"

definition isSpace :: "char \<Rightarrow> bool" where
  "isSpace c = (c \<in> set [CHR '' '', CHR 0x09, CHR 0x0A, CHR 0x0B, CHR 0x0C, CHR 0x0D])"

definition ascii_TrimSpace :: "string \<Rightarrow> string" where
  "ascii_TrimSpace s = rev (dropWhile isSpace (rev (dropWhile isSpace s)))"

text \<open>\<open>strings.Split(s, sep)\<close> for a one-byte separator; \<open>Split("", ",")\<close> is \<open>[""]\<close>.\<close>

fun Split :: "string \<Rightarrow> char \<Rightarrow> string list" where
  "Split [] sep = [[]]"
| "Split (x # xs) sep =
     (if x = sep then [] # Split xs sep
      else (case Split xs sep of
              [] \<Rightarrow> [[x]]
            | w # ws \<Rightarrow> (x # w) # ws))"

text \<open>\<open>fmt.Sprintf("%d", n)\<close> for a Go \<open>int\<close>: decimal digits, a leading minus sign
  for a negative number.\<close>

definition digit_chars :: string where
  "digit_chars = ''0123456789''"

function sprintf_nat :: "nat \<Rightarrow> string" where
  "sprintf_nat n =
     (if n < 10 then [digit_chars ! n]
      else sprintf_nat (n div 10) @ [digit_chars ! (n mod 10)])"
  by pat_completeness auto
termination
  by (relation "measure (\<lambda>n. n)") auto

declare sprintf_nat.simps [simp del]

definition sprintf_d :: "int \<Rightarrow> string" where
  "sprintf_d i = (if i < 0 then CHR ''-'' # sprintf_nat (nat (- i)) else sprintf_nat (nat i))"

text \<open>The helper \<open>contains\<close> of consul.go (lines 138-145).\<close>

fun contains :: "string list \<Rightarrow> string \<Rightarrow> bool" where
  "contains [] search = False"
| "contains (element # elements) search =
     (if element = search then True else contains elements search)"

text \<open>Indexing a Go slice with an \<open>int\<close>: a run-time panic outside \<open>0 .. len - 1\<close>.\<close>

datatype error =
    NoAgentsAvailable
  | GivingUp
  | NoMatchingService string
  | External string
  | MergedErrors "error list" string
  | PanicIndexOutOfRange

text \<open>
  \<open>NoAgentsAvailable\<close> is the error of \<open>GetAnyAgent\<close> on an empty pool; \<open>GivingUp\<close> is
  \<open>errors.New("An error occurred getting services from Consul. Giving up")\<close> (line 56);
  \<open>NoMatchingService\<close> is the \<open>fmt.Errorf\<close> of line 202; \<open>External\<close> is an error value
  handed back by a collaborator (a catalog query, a connection attempt, host resolution,
  URI parsing); \<open>MergedErrors\<close> is the result of \<open>utils.MergeErrorsOrNil\<close>.
  \<open>PanicIndexOutOfRange\<close> is not an error value returned by the code: \<open>Inl PanicIndexOutOfRange\<close>
  stands for the run-time panic of an out-of-range slice index, which unwinds every caller.
\<close>

definition go_index :: "'a list \<Rightarrow> int \<Rightarrow> error + 'a" where
  "go_index xs i =
     (if 0 \<le> i \<and> i < int (length xs) then Inr (xs ! nat i) else Inl PanicIndexOutOfRange)"


section \<open>Data model\<close>

text \<open>
  The configuration is declared outside consul.go. \<open>RequestRetries\<close> is a \<open>uint32\<close>: line 38
  compares it with the \<open>uint32\<close> loop variable. Modelled from the spec:
  \<open>AgentFailuresTolerance\<close> is an unsigned integer; it is taken of the same width.
\<close>

record Config =
  Tag :: string
  ConsulNameSeparator :: string
  IgnoredHealthChecks :: string
  RequestRetries :: "32 word"
  AgentFailuresTolerance :: "32 word"

record Task =
  task_ID :: string
  task_Host :: string
  task_Ports :: "int list"
  task_AppID :: string

record HealthCheck =
  hc_Protocol :: string
  hc_Path :: string
  hc_Port :: int
  hc_PortIndex :: int
  hc_IntervalSeconds :: int
  hc_TimeoutSeconds :: int
  hc_Command :: string

record RegistrationIntent =
  intent_Name :: string
  intent_Port :: int
  intent_Tags :: "string list"

text \<open>
  \<open>apps.App\<close>: \<open>RegistrationIntents\<close> is a method of the \<open>apps\<close> package, which is not
  part of consul.go; it is a field of the record, so every theorem holds for any such method.
\<close>

record App =
  app_ID :: string
  app_Labels :: "(string \<times> string) list"
  app_HealthChecks :: "HealthCheck list"
  app_RegistrationIntents :: "Task \<Rightarrow> string \<Rightarrow> RegistrationIntent list"

record AgentServiceCheck =
  check_Script :: string
  check_HTTP :: string
  check_TCP :: string
  check_Interval :: string
  check_Timeout :: string
  check_Status :: string

record AgentServiceRegistration =
  reg_ID :: string
  reg_Name :: string
  reg_Tags :: "string list"
  reg_Port :: int
  reg_Address :: string
  reg_Checks :: "AgentServiceCheck list"

record URL =
  url_Scheme :: string
  url_Opaque :: string
  url_Host :: string
  url_Path :: string
  url_RawQuery :: string
  url_Fragment :: string

text \<open>
  The functions of other packages that the translation calls: \<open>utils.HostToIPv4\<close>
  (followed by \<open>IP.String()\<close>), \<open>url.ParseRequestURI\<close>, \<open>(*URL).String\<close>, and
  \<open>strings.ToUpper\<close> and \<open>strings.TrimSpace\<close> on strings that are not ASCII. They are
  parameters of the model.
\<close>

record library =
  HostToIPv4 :: "string \<Rightarrow> error + string"
  ParseRequestURI :: "string \<Rightarrow> error + URL"
  URL_String :: "URL \<Rightarrow> string"
  unicode_ToUpper :: "string \<Rightarrow> string"
  unicode_TrimSpace :: "string \<Rightarrow> string"

definition ToUpper :: "library \<Rightarrow> string \<Rightarrow> string" where
  "ToUpper lib s = (if is_ascii s then ascii_ToUpper s else unicode_ToUpper lib s)"

definition TrimSpace :: "library \<Rightarrow> string \<Rightarrow> string" where
  "TrimSpace lib s = (if is_ascii s then ascii_TrimSpace s else unicode_TrimSpace lib s)"

datatype level = Info | Warn

type_synonym log_entry = "level \<times> string"


section \<open>Translating a task into service registrations (consul.go, lines 277-364)\<close>

text \<open>\<open>getIgnoredHealthCheckTypes\<close> (lines 355-364).\<close>

definition getIgnoredHealthCheckTypes :: "library \<Rightarrow> Config \<Rightarrow> string list" where
  "getIgnoredHealthCheckTypes lib c =
     filter (\<lambda>ignoredType. ignoredType \<noteq> [])
       (map (TrimSpace lib) (Split (ToUpper lib (IgnoredHealthChecks c)) CHR '',''))"

text \<open>
  The body of the loop of \<open>marathonToConsulChecks\<close> (lines 310-350) for one health check:
  the checks it appends and the log entries it writes, or the panic of line 319.
\<close>

definition marathonToConsulChecks_body ::
  "library \<Rightarrow> string list \<Rightarrow> Task \<Rightarrow> string \<Rightarrow> HealthCheck
     \<Rightarrow> error + (AgentServiceCheck list \<times> log_entry list)" where
  "marathonToConsulChecks_body lib ignoredHealthCheckTypes task serviceAddress check =
     (if contains ignoredHealthCheckTypes (hc_Protocol check)
      then Inr ([], [(Info, ''Ignoring health check of type '' @ hc_Protocol check)])
      else
        (case (if hc_Port check \<noteq> 0 then Inr (hc_Port check)
               else go_index (task_Ports task) (hc_PortIndex check)) of
           Inl p \<Rightarrow> Inl p
         | Inr port \<Rightarrow>
             (let consulCheck =
                    \<lparr> check_Script = [], check_HTTP = [], check_TCP = [],
                      check_Interval = sprintf_d (hc_IntervalSeconds check) @ ''s'',
                      check_Timeout = sprintf_d (hc_TimeoutSeconds check) @ ''s'',
                      check_Status = ''passing'' \<rparr>
              in if hc_Protocol check = ''HTTP'' \<or> hc_Protocol check = ''HTTPS'' then
                   (case ParseRequestURI lib (hc_Path check) of
                      Inr parsedURL \<Rightarrow>
                        Inr ([consulCheck \<lparr> check_HTTP :=
                                URL_String lib
                                  (parsedURL \<lparr> url_Scheme := ToLower (hc_Protocol check),
                                                url_Host := serviceAddress @ '':'' @ sprintf_d port \<rparr>) \<rparr>],
                             [])
                    | Inl err \<Rightarrow>
                        Inr ([], [(Warn, ''Could not parse provided path: '' @ hc_Path check)]))
                 else if hc_Protocol check = ''TCP'' then
                   Inr ([consulCheck \<lparr> check_TCP := serviceAddress @ '':'' @ sprintf_d port \<rparr>], [])
                 else if hc_Protocol check = ''COMMAND'' then
                   Inr ([consulCheck \<lparr> check_Script := hc_Command check \<rparr>], [])
                 else
                   Inr ([], [(Warn, ''Unrecognized check protocol '' @ hc_Protocol check)]))))"

text \<open>The loop of lines 309-351 over the health checks, with the checks and the log so far.\<close>

fun marathonToConsulChecks_loop ::
  "library \<Rightarrow> string list \<Rightarrow> Task \<Rightarrow> string \<Rightarrow> HealthCheck list
     \<Rightarrow> AgentServiceCheck list \<times> log_entry list
     \<Rightarrow> error + (AgentServiceCheck list \<times> log_entry list)" where
  "marathonToConsulChecks_loop lib ignored task serviceAddress [] acc = Inr acc"
| "marathonToConsulChecks_loop lib ignored task serviceAddress (check # rest) acc =
     (case marathonToConsulChecks_body lib ignored task serviceAddress check of
        Inl p \<Rightarrow> Inl p
      | Inr (cs, ls) \<Rightarrow>
          marathonToConsulChecks_loop lib ignored task serviceAddress rest
            (fst acc @ cs, snd acc @ ls))"

definition marathonToConsulChecks ::
  "library \<Rightarrow> Config \<Rightarrow> Task \<Rightarrow> HealthCheck list \<Rightarrow> string
     \<Rightarrow> error + (AgentServiceCheck list \<times> log_entry list)" where
  "marathonToConsulChecks lib c task healthChecks serviceAddress =
     marathonToConsulChecks_loop lib (getIgnoredHealthCheckTypes lib c) task serviceAddress
       healthChecks ([], [])"

text \<open>\<open>serviceID\<close> (lines 301-303): \<open>fmt.Sprintf("%s_%s_%d", task.ID, name, port)\<close>.\<close>

definition serviceID :: "Task \<Rightarrow> string \<Rightarrow> int \<Rightarrow> string" where
  "serviceID task name port = task_ID task @ ''_'' @ name @ ''_'' @ sprintf_d port"

text \<open>Modelled from the spec: \<open>service.MarathonTaskTag\<close>, which is not in consul.go; the
  spec gives the tag the form \<open>marathon-task:<TaskID>\<close>.\<close>

definition MarathonTaskTag :: "string \<Rightarrow> string" where
  "MarathonTaskTag taskID = ''marathon-task:'' @ taskID"

text \<open>\<open>marathonTaskToConsulServices\<close> (lines 277-299). The result carries the log of the
  check translation beside the registrations.\<close>

definition marathonTaskToConsulServices ::
  "library \<Rightarrow> Config \<Rightarrow> Task \<Rightarrow> App
     \<Rightarrow> error + (AgentServiceRegistration list \<times> log_entry list)" where
  "marathonTaskToConsulServices lib c task app =
     (case HostToIPv4 lib (task_Host task) of
        Inl err \<Rightarrow> Inl err
      | Inr serviceAddress \<Rightarrow>
          (case marathonToConsulChecks lib c task (app_HealthChecks app) serviceAddress of
             Inl p \<Rightarrow> Inl p
           | Inr (checks, logs) \<Rightarrow>
               Inr (map (\<lambda>intent.
                          \<lparr> reg_ID = serviceID task (intent_Name intent) (intent_Port intent),
                            reg_Name = intent_Name intent,
                            reg_Tags = [Tag c] @ intent_Tags intent @ [MarathonTaskTag (task_ID task)],
                            reg_Port = intent_Port intent,
                            reg_Address = serviceAddress,
                            reg_Checks = checks \<rparr>)
                        (app_RegistrationIntents app task (ConsulNameSeparator c)),
                    logs)))"


section \<open>The agent pool\<close>

text \<open>
  Modelled from the spec: the type \<open>Agents\<close> and its operations \<open>GetAnyAgent\<close>,
  \<open>GetAgent\<close>, \<open>RemoveAgent\<close>, \<open>IncFailures\<close> and \<open>ClearFailures\<close> are declared
  outside consul.go. The pool maps an address to its agent; it is a list of agents keyed by
  \<open>agent_IP\<close>. An agent is an object shared between the pool and the caller, so an update
  of the agent is written back to the pool (\<open>store_agent\<close>). The failure counter has the
  width of \<open>AgentFailuresTolerance\<close>, which line 46 compares it with.
  \<open>GetAnyAgent\<close> returns an arbitrary agent of the pool: the choice is the number \<open>r\<close>.
  \<open>GetAgent\<close> creates and connects an agent for an unknown address; the connection attempt
  is the parameter \<open>connect\<close>.
\<close>

record 'c Agent =
  agent_Client :: 'c
  agent_IP :: string
  agent_failures :: "32 word"

type_synonym 'c Agents = "'c Agent list"

definition GetAnyAgent :: "'c Agents \<Rightarrow> nat \<Rightarrow> error + 'c Agent" where
  "GetAnyAgent agents r =
     (if agents = [] then Inl NoAgentsAvailable else Inr (agents ! (r mod length agents)))"

definition RemoveAgent :: "string \<Rightarrow> 'c Agents \<Rightarrow> 'c Agents" where
  "RemoveAgent ip agents = filter (\<lambda>a. agent_IP a \<noteq> ip) agents"

definition IncFailures :: "'c Agent \<Rightarrow> 'c Agent" where
  "IncFailures a = a \<lparr> agent_failures := agent_failures a + 1 \<rparr>"

definition ClearFailures :: "'c Agent \<Rightarrow> 'c Agent" where
  "ClearFailures a = a \<lparr> agent_failures := 0 \<rparr>"

definition store_agent :: "'c Agent \<Rightarrow> 'c Agents \<Rightarrow> 'c Agents" where
  "store_agent a agents = map (\<lambda>b. if agent_IP b = agent_IP a then a else b) agents"

definition GetAgent ::
  "(string \<Rightarrow> error + 'c) \<Rightarrow> string \<Rightarrow> 'c Agents \<Rightarrow> error + ('c Agent \<times> 'c Agents)" where
  "GetAgent connect address agents =
     (case find (\<lambda>a. agent_IP a = address) agents of
        Some a \<Rightarrow> Inr (a, agents)
      | None \<Rightarrow>
          (case connect address of
             Inl err \<Rightarrow> Inl err
           | Inr client \<Rightarrow>
               Inr (\<lparr> agent_Client = client, agent_IP = address, agent_failures = 0 \<rparr>,
                    agents @ [\<lparr> agent_Client = client, agent_IP = address, agent_failures = 0 \<rparr>])))"


section \<open>Retrying a provider over the pool (consul.go, lines 37-57)\<close>

text \<open>
  One entry per invocation of the provider, in order: the agent it ran on and, for a failed
  one, the failure count that \<open>IncFailures\<close> returned.
\<close>

datatype invocation = Failed string "32 word" | Succeeded string

text \<open>
  The loop of \<open>getServicesUsingProviderWithRetriesOnAgentFailure\<close>. \<open>retry\<close> is the
  \<open>uint32\<close> loop variable. The provider's answer may change from one invocation to the
  next and \<open>GetAnyAgent\<close> draws anew each time: \<open>provide n\<close> and \<open>pick n\<close> are the answer and
  the draw after \<open>n\<close> earlier invocations. The result is the returned pair (error or
  services), the pool and the invocations made; \<open>None\<close> means that the loop does not return.
\<close>

partial_function (option) getServicesUsingProviderWithRetriesOnAgentFailure_loop ::
  "Config \<Rightarrow> (nat \<Rightarrow> nat) \<Rightarrow> (nat \<Rightarrow> 'c \<Rightarrow> error + 'a) \<Rightarrow> 32 word \<Rightarrow> 'c Agents
     \<Rightarrow> invocation list \<Rightarrow> ((error + 'a) \<times> 'c Agents \<times> invocation list) option" where
  "getServicesUsingProviderWithRetriesOnAgentFailure_loop c pick provide retry agents trace =
     (if retry \<le> RequestRetries c then
        (case GetAnyAgent agents (pick (length trace)) of
           Inl err \<Rightarrow> Some (Inl err, agents, trace)
         | Inr agent \<Rightarrow>
             (case provide (length trace) (agent_Client agent) of
                Inl err \<Rightarrow>
                  getServicesUsingProviderWithRetriesOnAgentFailure_loop c pick provide (retry + 1)
                    (if agent_failures (IncFailures agent) > AgentFailuresTolerance c
                     then RemoveAgent (agent_IP agent) (store_agent (IncFailures agent) agents)
                     else store_agent (IncFailures agent) agents)
                    (trace @ [Failed (agent_IP agent) (agent_failures (IncFailures agent))])
              | Inr services \<Rightarrow>
                  Some (Inr services, store_agent (ClearFailures agent) agents,
                        trace @ [Succeeded (agent_IP agent)])))
      else Some (Inl GivingUp, agents, trace))"

definition getServicesUsingProviderWithRetriesOnAgentFailure ::
  "Config \<Rightarrow> (nat \<Rightarrow> nat) \<Rightarrow> (nat \<Rightarrow> 'c \<Rightarrow> error + 'a) \<Rightarrow> 'c Agents
     \<Rightarrow> ((error + 'a) \<times> 'c Agents \<times> invocation list) option" where
  "getServicesUsingProviderWithRetriesOnAgentFailure c pick provide agents =
     getServicesUsingProviderWithRetriesOnAgentFailure_loop c pick provide 0 agents []"


section \<open>Catalog reads through one agent (consul.go, lines 59-90, 121-136)\<close>

record CatalogService =
  cs_ServiceID :: string
  cs_ServiceName :: string
  cs_ServiceTags :: "string list"
  cs_Address :: string

record Service =
  svc_ID :: string
  svc_Name :: string
  svc_Tags :: "string list"
  svc_RegisteringAgentAddress :: string

record QueryOptions =
  Datacenter :: string

text \<open>
  What the catalog answers through one client: \<open>Catalog().Datacenters()\<close>,
  \<open>Catalog().Service(name, tag, q)\<close> and \<open>Catalog().Services(q)\<close>. The Go map that
  \<open>Services\<close> returns is a list of (service name, tags) in the order in which \<open>range\<close>
  visits it.
\<close>

record Client =
  Catalog_Datacenters :: "error + string list"
  Catalog_Service :: "string \<Rightarrow> string \<Rightarrow> QueryOptions \<Rightarrow> error + CatalogService list"
  Catalog_Services :: "QueryOptions \<Rightarrow> error + (string \<times> string list) list"

definition consulServiceToService :: "CatalogService \<Rightarrow> Service" where
  "consulServiceToService consulService =
     \<lparr> svc_ID = cs_ServiceID consulService,
       svc_Name = cs_ServiceName consulService,
       svc_Tags = cs_ServiceTags consulService,
       svc_RegisteringAgentAddress = cs_Address consulService \<rparr>"

definition consulServicesToServices :: "CatalogService list \<Rightarrow> Service list" where
  "consulServicesToServices consulServices = map consulServiceToService consulServices"

definition dcAwareQueriesForAllDCs :: "Client \<Rightarrow> error + QueryOptions list" where
  "dcAwareQueriesForAllDCs agent =
     (case Catalog_Datacenters agent of
        Inl err \<Rightarrow> Inl err
      | Inr datacenters \<Rightarrow> Inr (map (\<lambda>dc. \<lparr> Datacenter = dc \<rparr>) datacenters))"

text \<open>The loop of lines 66-72, with \<open>allServices\<close> so far.\<close>

fun getServicesUsingAgent_loop ::
  "Config \<Rightarrow> string \<Rightarrow> Client \<Rightarrow> QueryOptions list \<Rightarrow> Service list \<Rightarrow> error + Service list" where
  "getServicesUsingAgent_loop c name agent [] allServices = Inr allServices"
| "getServicesUsingAgent_loop c name agent (dcAwareQuery # rest) allServices =
     (case Catalog_Service agent name (Tag c) dcAwareQuery of
        Inl err \<Rightarrow> Inl err
      | Inr allConsulServices \<Rightarrow>
          getServicesUsingAgent_loop c name agent rest
            (allServices @ consulServicesToServices allConsulServices))"

definition getServicesUsingAgent :: "Config \<Rightarrow> string \<Rightarrow> Client \<Rightarrow> error + Service list" where
  "getServicesUsingAgent c name agent =
     (case dcAwareQueriesForAllDCs agent of
        Inl err \<Rightarrow> Inl err
      | Inr dcAwareQueries \<Rightarrow> getServicesUsingAgent_loop c name agent dcAwareQueries [])"





section \<open>Registering and deregistering (consul.go, lines 147-271)\<close>

text \<open>
  The cluster the operations talk to: the draws of \<open>GetAnyAgent\<close>, the connection attempt of
  \<open>GetAgent\<close>, what the catalog answers through a client handle at the \<open>n\<close>-th invocation of
  a provider, and the outcome of \<open>Agent().ServiceRegister\<close> and
  \<open>Agent().ServiceDeregister\<close> issued after \<open>n\<close> earlier requests (\<open>None\<close> is Go's \<open>nil\<close>
  error).
\<close>

record 'c cluster =
  draws :: "nat \<Rightarrow> nat"
  connect :: "string \<Rightarrow> error + 'c"
  catalog :: "nat \<Rightarrow> 'c \<Rightarrow> Client"
  ServiceRegister :: "nat \<Rightarrow> 'c \<Rightarrow> AgentServiceRegistration \<Rightarrow> error option"
  ServiceDeregister :: "nat \<Rightarrow> 'c \<Rightarrow> string \<Rightarrow> error option"

text \<open>The requests that change the catalog, in the order issued, with the agent's address.\<close>

datatype request =
    RegisterRequest string AgentServiceRegistration
  | DeregisterRequest string string

record 'c state =
  agents :: "'c Agents"
  requests :: "request list"

text \<open>Modelled from the spec: \<open>utils.MergeErrorsOrNil\<close>, which is not in consul.go: no
  error when the list is empty, otherwise one aggregate error that carries the list.\<close>

definition MergeErrorsOrNil :: "error list \<Rightarrow> string \<Rightarrow> error option" where
  "MergeErrorsOrNil errors description =
     (if errors = [] then None else Some (MergedErrors errors description))"

text \<open>\<open>register\<close> (lines 176-195).\<close>

definition register :: "'c cluster \<Rightarrow> 'c state \<Rightarrow> AgentServiceRegistration \<Rightarrow> error option \<times> 'c state" where
  "register env st service =
     (case GetAgent (connect env) (reg_Address service) (agents st) of
        Inl err \<Rightarrow> (Some err, st)
      | Inr (agent, agents') \<Rightarrow>
          (ServiceRegister env (length (requests st)) (agent_Client agent) service,
           \<lparr> agents = agents',
             requests = requests st @ [RegisterRequest (agent_IP agent) service] \<rparr>))"

text \<open>The loop of \<open>registerMultipleServices\<close> (lines 166-171), with \<open>registerErrors\<close> so far.\<close>

fun registerMultipleServices_loop ::
  "'c cluster \<Rightarrow> 'c state \<Rightarrow> AgentServiceRegistration list \<Rightarrow> error list \<Rightarrow> error list \<times> 'c state" where
  "registerMultipleServices_loop env st [] registerErrors = (registerErrors, st)"
| "registerMultipleServices_loop env st (s # rest) registerErrors =
     (case register env st s of
        (None, st') \<Rightarrow> registerMultipleServices_loop env st' rest registerErrors
      | (Some registerErr, st') \<Rightarrow>
          registerMultipleServices_loop env st' rest (registerErrors @ [registerErr]))"

definition registerMultipleServices ::
  "'c cluster \<Rightarrow> 'c state \<Rightarrow> AgentServiceRegistration list \<Rightarrow> error option \<times> 'c state" where
  "registerMultipleServices env st services =
     (case registerMultipleServices_loop env st services [] of
        (registerErrors, st') \<Rightarrow> (MergeErrorsOrNil registerErrors ''registering services'', st'))"

text \<open>\<open>Register\<close> (lines 147-162); the deprecation warning and the metrics are left out.\<close>

definition Register ::
  "library \<Rightarrow> 'c cluster \<Rightarrow> Config \<Rightarrow> 'c state \<Rightarrow> Task \<Rightarrow> App \<Rightarrow> error option \<times> 'c state" where
  "Register lib env c st task app =
     (case marathonTaskToConsulServices lib c task app of
        Inl err \<Rightarrow> (Some err, st)
      | Inr (services, logs) \<Rightarrow> registerMultipleServices env st services)"







text \<open>\<open>GetServices\<close> (lines 31-35).\<close>

definition GetServices ::
  "'c cluster \<Rightarrow> Config \<Rightarrow> 'c state \<Rightarrow> string \<Rightarrow> ((error + Service list) \<times> 'c state) option" where
  "GetServices env c st name =
     (case getServicesUsingProviderWithRetriesOnAgentFailure c (draws env)
             (\<lambda>n agent. getServicesUsingAgent c name (catalog env n agent))
             (agents st) of
        None \<Rightarrow> None
      | Some (res, agents', trace) \<Rightarrow> Some (res, st \<lparr> agents := agents' \<rparr>))"


section \<open>Auxiliary definitions and example values\<close>

text \<open>An example library for the witnesses: every host resolves to itself, a path that starts
  with a slash parses, and a URL prints as \<open>scheme://host/path\<close>.\<close>

definition example_library :: library where
  "example_library =
     \<lparr> HostToIPv4 = (\<lambda>host. Inr host),
       ParseRequestURI = (\<lambda>rawurl.
         if rawurl \<noteq> [] \<and> hd rawurl = CHR ''/''
         then Inr \<lparr> url_Scheme = [], url_Opaque = [], url_Host = [], url_Path = rawurl,
                    url_RawQuery = [], url_Fragment = [] \<rparr>
         else Inl (External ''invalid URI for request'')),
       URL_String = (\<lambda>u. url_Scheme u @ ''://'' @ url_Host u @ url_Path u),
       unicode_ToUpper = (\<lambda>s. s),
       unicode_TrimSpace = (\<lambda>s. s) \<rparr>"

definition example_config :: Config where
  "example_config =
     \<lparr> Tag = ''marathon'', ConsulNameSeparator = ''.'', IgnoredHealthChecks = [],
       RequestRetries = 2, AgentFailuresTolerance = 1 \<rparr>"

definition example_task :: Task where
  "example_task =
     \<lparr> task_ID = ''task1'', task_Host = ''10.0.0.5'', task_Ports = [8080],
       task_AppID = ''/web'' \<rparr>"

definition example_http_check :: HealthCheck where
  "example_http_check =
     \<lparr> hc_Protocol = ''HTTP'', hc_Path = ''/health'', hc_Port = 0, hc_PortIndex = 0,
       hc_IntervalSeconds = 10, hc_TimeoutSeconds = 5, hc_Command = [] \<rparr>"

definition example_app :: "RegistrationIntent list \<Rightarrow> App" where
  "example_app intents =
     \<lparr> app_ID = ''/web'', app_Labels = [(''consul'', ''web'')],
       app_HealthChecks = [example_http_check],
       app_RegistrationIntents = (\<lambda>task separator. intents) \<rparr>"

definition example_ignoring_config :: Config where
  "example_ignoring_config = example_config \<lparr> IgnoredHealthChecks := ''tcp, command'' \<rparr>"

definition example_check :: "string \<Rightarrow> int \<Rightarrow> int \<Rightarrow> HealthCheck" where
  "example_check protocol port portIndex =
     \<lparr> hc_Protocol = protocol, hc_Path = ''/health'', hc_Port = port, hc_PortIndex = portIndex,
       hc_IntervalSeconds = 10, hc_TimeoutSeconds = 5, hc_Command = ''true'' \<rparr>"

text \<open>The health checks for which the switch of lines 328-350 appends a check: not ignored,
  and HTTP or HTTPS with a path that parses, or TCP, or COMMAND.\<close>

definition builds_check :: "library \<Rightarrow> string list \<Rightarrow> HealthCheck \<Rightarrow> bool" where
  "builds_check lib ignored h \<longleftrightarrow>
     \<not> contains ignored (hc_Protocol h)
     \<and> ((hc_Protocol h = ''HTTP'' \<or> hc_Protocol h = ''HTTPS'')
           \<and> (\<exists>u. ParseRequestURI lib (hc_Path h) = Inr u)
        \<or> hc_Protocol h = ''TCP'' \<or> hc_Protocol h = ''COMMAND'')"

text \<open>A built check carries the interval and the timeout of its health check and the status
  \<open>passing\<close>.\<close>

definition carries :: "HealthCheck \<Rightarrow> AgentServiceCheck \<Rightarrow> bool" where
  "carries h k \<longleftrightarrow>
     check_Status k = ''passing''
     \<and> check_Interval k = sprintf_d (hc_IntervalSeconds h) @ ''s''
     \<and> check_Timeout k = sprintf_d (hc_TimeoutSeconds h) @ ''s''"

definition example_three_checks :: "HealthCheck list" where
  "example_three_checks =
     [\<lparr> hc_Protocol = ''HTTP'', hc_Path = ''/health'', hc_Port = 0, hc_PortIndex = 0,
        hc_IntervalSeconds = 10, hc_TimeoutSeconds = 5, hc_Command = [] \<rparr>,
      \<lparr> hc_Protocol = ''FOO'', hc_Path = [], hc_Port = 0, hc_PortIndex = 0,
        hc_IntervalSeconds = 20, hc_TimeoutSeconds = 20, hc_Command = [] \<rparr>,
      \<lparr> hc_Protocol = ''TCP'', hc_Path = [], hc_Port = 9000, hc_PortIndex = 0,
        hc_IntervalSeconds = 60, hc_TimeoutSeconds = 30, hc_Command = [] \<rparr>]"

definition example_instance :: "string \<Rightarrow> string \<Rightarrow> CatalogService" where
  "example_instance serviceId address =
     \<lparr> cs_ServiceID = serviceId, cs_ServiceName = ''web'',
       cs_ServiceTags = [''marathon'', ''marathon-task:task1''], cs_Address = address \<rparr>"

text \<open>A client that knows the datacenters \<open>dc1\<close>, \<open>dc2\<close> and \<open>dc3\<close>; the queries to the
  datacenters in \<open>failing\<close> fail.\<close>

definition example_client :: "string list \<Rightarrow> Client" where
  "example_client failing =
     \<lparr> Catalog_Datacenters = Inr [''dc1'', ''dc2'', ''dc3''],
       Catalog_Service = (\<lambda>name tag q.
         if Datacenter q \<in> set failing then Inl (External (''no path to '' @ Datacenter q))
         else if Datacenter q = ''dc1'' then Inr [example_instance ''a'' ''10.0.0.1'']
         else if Datacenter q = ''dc2'' then Inr []
         else Inr [example_instance ''b'' ''10.0.0.3'', example_instance ''c'' ''10.0.0.4'']),
       Catalog_Services = (\<lambda>q.
         if Datacenter q \<in> set failing then Inl (External (''no path to '' @ Datacenter q))
         else Inr [(''web'', [''marathon'', ''marathon-task:task1'']), (''db'', [''marathon''])]) \<rparr>"








definition example_agent :: "string \<Rightarrow> 32 word \<Rightarrow> string Agent" where
  "example_agent ip failures = \<lparr> agent_Client = ip, agent_IP = ip, agent_failures = failures \<rparr>"


definition example_unbounded_config :: Config where
  "example_unbounded_config =
     example_config \<lparr> RequestRetries := 4294967295, AgentFailuresTolerance := 4294967295 \<rparr>"


definition is_Failed :: "invocation \<Rightarrow> bool" where
  "is_Failed e = (case e of Failed ip n \<Rightarrow> True | Succeeded ip \<Rightarrow> False)"


section \<open>Properties\<close>

lemma digit_chars_nth_inj:
  "i < 10 \<Longrightarrow> j < 10 \<Longrightarrow> digit_chars ! i = digit_chars ! j \<Longrightarrow> i = j"
proof -
  have d: "distinct digit_chars" by (simp add: digit_chars_def)
  have l: "length digit_chars = 10" by (simp add: digit_chars_def)
  show "i < 10 \<Longrightarrow> j < 10 \<Longrightarrow> digit_chars ! i = digit_chars ! j \<Longrightarrow> i = j"
    using d l by (simp add: nth_eq_iff_index_eq)
qed

lemma sprintf_nat_nonempty: "sprintf_nat n \<noteq> []"
  by (subst sprintf_nat.simps) simp

lemma sprintf_nat_digits: "set (sprintf_nat n) \<subseteq> set digit_chars"
proof (induction n rule: sprintf_nat.induct)
  case (1 n)
  have l: "length digit_chars = 10" by (simp add: digit_chars_def)
  show ?case
  proof (cases "n < 10")
    case True
    then show ?thesis using l by (subst sprintf_nat.simps) simp
  next
    case False
    have "n mod 10 < length digit_chars" using l by simp
    then have "digit_chars ! (n mod 10) \<in> set digit_chars" by (rule nth_mem)
    with False 1 show ?thesis by (subst sprintf_nat.simps) simp
  qed
qed

lemma sprintf_nat_inj: "sprintf_nat n = sprintf_nat m \<Longrightarrow> n = m"
proof (induction n arbitrary: m rule: sprintf_nat.induct)
  case (1 n)
  show ?case
  proof (cases "n < 10")
    case n: True
    show ?thesis
    proof (cases "m < 10")
      case True
      with n 1(2) show ?thesis
        by (simp add: sprintf_nat.simps [of n] sprintf_nat.simps [of m] digit_chars_nth_inj)
    next
      case False
      with n 1(2) show ?thesis
        using sprintf_nat_nonempty [of "m div 10"]
        by (simp add: sprintf_nat.simps [of n] sprintf_nat.simps [of m])
    qed
  next
    case n: False
    show ?thesis
    proof (cases "m < 10")
      case True
      with n 1(2) show ?thesis
        using sprintf_nat_nonempty [of "n div 10"]
        by (simp add: sprintf_nat.simps [of n] sprintf_nat.simps [of m])
    next
      case False
      with n 1(2) have eq: "sprintf_nat (n div 10) = sprintf_nat (m div 10)"
        and d: "digit_chars ! (n mod 10) = digit_chars ! (m mod 10)"
        by (simp_all add: sprintf_nat.simps [of n] sprintf_nat.simps [of m])
      from 1(1) [OF n eq] have "n div 10 = m div 10" .
      moreover from d have "n mod 10 = m mod 10" by (simp add: digit_chars_nth_inj)
      ultimately show ?thesis by (metis div_mult_mod_eq)
    qed
  qed
qed

lemma sprintf_d_digits: "set (sprintf_d i) \<subseteq> insert CHR ''-'' (set digit_chars)"
  using sprintf_nat_digits by (auto simp: sprintf_d_def)

lemma underscore_not_in_sprintf_d: "CHR ''_'' \<notin> set (sprintf_d i)"
  using sprintf_d_digits [of i] by (auto simp: digit_chars_def)

lemma minus_not_in_sprintf_nat: "CHR ''-'' \<notin> set (sprintf_nat n)"
  using sprintf_nat_digits [of n] by (auto simp: digit_chars_def)

lemma sprintf_d_inj: "sprintf_d i = sprintf_d j \<Longrightarrow> i = j"
proof -
  assume eq: "sprintf_d i = sprintf_d j"
  have hd_nat: "\<And>n. hd (sprintf_nat n) \<noteq> CHR ''-''"
    using minus_not_in_sprintf_nat sprintf_nat_nonempty by (metis hd_in_set)
  show "i = j"
  proof (cases "i < 0")
    case i: True
    show ?thesis
    proof (cases "j < 0")
      case True
      with i eq have "nat (- i) = nat (- j)" by (auto simp: sprintf_d_def dest: sprintf_nat_inj)
      with i True show ?thesis by simp
    next
      case False
      with i eq have "CHR ''-'' # sprintf_nat (nat (- i)) = sprintf_nat (nat j)"
        by (simp add: sprintf_d_def)
      then have "hd (sprintf_nat (nat j)) = CHR ''-''" by (metis list.sel(1))
      with hd_nat show ?thesis by blast
    qed
  next
    case i: False
    show ?thesis
    proof (cases "j < 0")
      case True
      with i eq have "sprintf_nat (nat i) = CHR ''-'' # sprintf_nat (nat (- j))"
        by (simp add: sprintf_d_def)
      then have "hd (sprintf_nat (nat i)) = CHR ''-''" by (metis list.sel(1))
      with hd_nat show ?thesis by blast
    next
      case False
      with i eq have "nat i = nat j" by (auto simp: sprintf_d_def dest: sprintf_nat_inj)
      with i False show ?thesis by simp
    qed
  qed
qed

lemma split_at_first_separator:
  "us @ c # vs = us' @ c # vs' \<Longrightarrow> c \<notin> set us \<Longrightarrow> c \<notin> set us' \<Longrightarrow> us = us' \<and> vs = vs'"
proof (induction us arbitrary: us')
  case Nil
  then show ?case by (cases us') auto
next
  case (Cons u us)
  then show ?case by (cases us') auto
qed

lemma split_at_last_separator:
  assumes "xs @ c # ys = xs' @ c # ys'" and "c \<notin> set ys" and "c \<notin> set ys'"
  shows "xs = xs' \<and> ys = ys'"
proof -
  from assms(1) have "rev (xs @ c # ys) = rev (xs' @ c # ys')" by simp
  then have "rev ys @ c # rev xs = rev ys' @ c # rev xs'" by simp
  moreover have "c \<notin> set (rev ys)" "c \<notin> set (rev ys')" using assms by simp_all
  ultimately have "rev ys = rev ys' \<and> rev xs = rev xs'"
    by (rule split_at_first_separator)
  then show ?thesis by simp
qed

lemma serviceID_inj:
  "serviceID task name port = serviceID task name' port' \<longleftrightarrow> name = name' \<and> port = port'"
proof
  assume "serviceID task name port = serviceID task name' port'"
  then have "name @ CHR ''_'' # sprintf_d port = name' @ CHR ''_'' # sprintf_d port'"
    by (simp add: serviceID_def)
  then have "name = name' \<and> sprintf_d port = sprintf_d port'"
    by (rule split_at_last_separator) (rule underscore_not_in_sprintf_d)+
  then show "name = name' \<and> port = port'" by (auto dest: sprintf_d_inj)
qed simp

lemma contains_iff: "contains xs s \<longleftrightarrow> s \<in> set xs"
  by (induction xs) auto

lemma getIgnoredHealthCheckTypes_entries:
  "set (getIgnoredHealthCheckTypes lib c) =
     {p. p \<noteq> [] \<and> (\<exists>entry \<in> set (Split (ToUpper lib (IgnoredHealthChecks c)) CHR '',''). p = TrimSpace lib entry)}"
  by (auto simp: getIgnoredHealthCheckTypes_def)

lemma body_ignored:
  "contains ig (hc_Protocol check) \<Longrightarrow>
   marathonToConsulChecks_body lib ig task addr check =
     Inr ([], [(Info, ''Ignoring health check of type '' @ hc_Protocol check)])"
  by (simp add: marathonToConsulChecks_body_def)

lemma loop_total:
  "\<forall>h \<in> set hcs. hc_Port h \<noteq> 0 \<or> (0 \<le> hc_PortIndex h \<and> hc_PortIndex h < int (length (task_Ports task)))
   \<Longrightarrow> \<exists>r. marathonToConsulChecks_loop lib ig task addr hcs acc = Inr r"
proof (induction hcs arbitrary: acc)
  case Nil
  then show ?case by simp
next
  case (Cons h hcs)
  then have "\<exists>r. marathonToConsulChecks_body lib ig task addr h = Inr r"
    by (auto simp: marathonToConsulChecks_body_def Let_def go_index_def split: sum.splits)
  then obtain cs ls where "marathonToConsulChecks_body lib ig task addr h = Inr (cs, ls)" by force
  with Cons show ?case by simp
qed

lemmas example_defs =
  example_config_def example_task_def example_http_check_def example_app_def example_library_def

lemmas eval_defs =
  marathonTaskToConsulServices_def marathonToConsulChecks_def marathonToConsulChecks_body_def
  getIgnoredHealthCheckTypes_def ToUpper_def TrimSpace_def is_ascii_def ascii_ToUpper_def
  ascii_TrimSpace_def ToLower_def toUpper_char_def toLower_char_def
  lower_letters_def upper_letters_def isSpace_def go_index_def
  sprintf_d_def sprintf_nat.simps digit_chars_def serviceID_def MarathonTaskTag_def

lemma example_checks_value:
  "marathonToConsulChecks example_library example_config example_task [example_http_check] ''10.0.0.5''
   = Inr ([\<lparr> check_Script = [], check_HTTP = ''http://10.0.0.5:8080/health'', check_TCP = [],
              check_Interval = ''10s'', check_Timeout = ''5s'', check_Status = ''passing'' \<rparr>], [])"
  by (simp add: example_defs eval_defs)

text \<open>
  Claim C3, as amended. For a task whose host resolves and whose health-check translation
  completes, \<open>marathonTaskToConsulServices\<close> (the translation that \<open>Register\<close> submits)
  yields one registration per registration intent, in the order of the intents; the ID of
  each is \<open>TaskID_name_port\<close>, a function of the task's ID and the intent's name and port
  alone; and two registrations of the task have the same ID exactly when their intents have
  the same name and the same port. A repeated translation of the same task and intents
  therefore gives the same IDs.
\<close>

theorem registrations_per_intent:
  assumes "HostToIPv4 lib (task_Host task) = Inr serviceAddress"
    and "marathonToConsulChecks lib c task (app_HealthChecks app) serviceAddress = Inr (checks, logs)"
  shows "\<exists>regs. marathonTaskToConsulServices lib c task app = Inr (regs, logs)
     \<and> length regs = length (app_RegistrationIntents app task (ConsulNameSeparator c))
     \<and> map reg_ID regs =
         map (\<lambda>intent. task_ID task @ ''_'' @ intent_Name intent @ ''_'' @ sprintf_d (intent_Port intent))
           (app_RegistrationIntents app task (ConsulNameSeparator c))
     \<and> (\<forall>i < length regs. \<forall>j < length regs.
          reg_ID (regs ! i) = reg_ID (regs ! j) \<longleftrightarrow>
            intent_Name (app_RegistrationIntents app task (ConsulNameSeparator c) ! i)
              = intent_Name (app_RegistrationIntents app task (ConsulNameSeparator c) ! j)
            \<and> intent_Port (app_RegistrationIntents app task (ConsulNameSeparator c) ! i)
              = intent_Port (app_RegistrationIntents app task (ConsulNameSeparator c) ! j))"
proof -
  let ?intents = "app_RegistrationIntents app task (ConsulNameSeparator c)"
  let ?regs = "map (\<lambda>intent.
      \<lparr> reg_ID = serviceID task (intent_Name intent) (intent_Port intent),
        reg_Name = intent_Name intent,
        reg_Tags = [Tag c] @ intent_Tags intent @ [MarathonTaskTag (task_ID task)],
        reg_Port = intent_Port intent,
        reg_Address = serviceAddress,
        reg_Checks = checks \<rparr>) ?intents"
  have r: "marathonTaskToConsulServices lib c task app = Inr (?regs, logs)"
    using assms by (simp add: marathonTaskToConsulServices_def)
  have l: "length ?regs = length ?intents" by simp
  have ids: "map reg_ID ?regs =
      map (\<lambda>intent. task_ID task @ ''_'' @ intent_Name intent @ ''_'' @ sprintf_d (intent_Port intent)) ?intents"
    by (simp add: serviceID_def)
  have u: "\<forall>i < length ?regs. \<forall>j < length ?regs.
      reg_ID (?regs ! i) = reg_ID (?regs ! j) \<longleftrightarrow>
        intent_Name (?intents ! i) = intent_Name (?intents ! j)
        \<and> intent_Port (?intents ! i) = intent_Port (?intents ! j)"
    by (simp add: serviceID_inj)
  from r l ids u show ?thesis by (intro exI conjI)
qed

text \<open>The theorem at a task with two intents, \<open>web:8080\<close> and \<open>admin:8081\<close>.\<close>

theorem registrations_per_intent_witness:
  "HostToIPv4 example_library (task_Host example_task) = Inr ''10.0.0.5''
   \<and> marathonToConsulChecks example_library example_config example_task
        (app_HealthChecks (example_app
           [\<lparr> intent_Name = ''web'', intent_Port = 8080, intent_Tags = [] \<rparr>,
            \<lparr> intent_Name = ''admin'', intent_Port = 8081, intent_Tags = [''internal''] \<rparr>]))
        ''10.0.0.5''
      = Inr ([\<lparr> check_Script = [], check_HTTP = ''http://10.0.0.5:8080/health'', check_TCP = [],
              check_Interval = ''10s'', check_Timeout = ''5s'', check_Status = ''passing'' \<rparr>], [])
   \<and> (\<exists>regs. marathonTaskToConsulServices example_library example_config example_task
         (example_app
           [\<lparr> intent_Name = ''web'', intent_Port = 8080, intent_Tags = [] \<rparr>,
            \<lparr> intent_Name = ''admin'', intent_Port = 8081, intent_Tags = [''internal''] \<rparr>])
         = Inr (regs, [])
       \<and> map reg_ID regs = [''task1_web_8080'', ''task1_admin_8081''])"
proof -
  let ?app = "example_app
           [\<lparr> intent_Name = ''web'', intent_Port = 8080, intent_Tags = [] \<rparr>,
            \<lparr> intent_Name = ''admin'', intent_Port = 8081, intent_Tags = [''internal''] \<rparr>]"
  have h1: "HostToIPv4 example_library (task_Host example_task) = Inr ''10.0.0.5''"
    by (simp add: example_defs)
  have h2: "marathonToConsulChecks example_library example_config example_task
        (app_HealthChecks ?app) ''10.0.0.5''
      = Inr ([\<lparr> check_Script = [], check_HTTP = ''http://10.0.0.5:8080/health'', check_TCP = [],
              check_Interval = ''10s'', check_Timeout = ''5s'', check_Status = ''passing'' \<rparr>], [])"
    using example_checks_value by (simp add: example_app_def)
  from registrations_per_intent [OF h1 h2] obtain regs where
    r: "marathonTaskToConsulServices example_library example_config example_task ?app = Inr (regs, [])"
    and ids: "map reg_ID regs =
         map (\<lambda>intent. task_ID example_task @ ''_'' @ intent_Name intent @ ''_'' @ sprintf_d (intent_Port intent))
           (app_RegistrationIntents ?app example_task (ConsulNameSeparator example_config))"
    by (elim exE conjE)
  from ids have "map reg_ID regs = [''task1_web_8080'', ''task1_admin_8081'']"
    by (simp add: example_app_def example_task_def sprintf_d_def sprintf_nat.simps digit_chars_def)
  with r have "\<exists>regs. marathonTaskToConsulServices example_library example_config example_task ?app
         = Inr (regs, [])
       \<and> map reg_ID regs = [''task1_web_8080'', ''task1_admin_8081'']"
    by (intro exI conjI)
  with h1 h2 show ?thesis by (intro conjI)
qed

text \<open>
  Claim C3 as stated (every registration has an ID of its own) fails when the app yields two
  intents with the same name and port: both registrations get the ID \<open>task1_web_8080\<close>.
\<close>

theorem registration_ids_not_unique_counterexample:
  "(case marathonTaskToConsulServices example_library example_config example_task
          (example_app
             [\<lparr> intent_Name = ''web'', intent_Port = 8080, intent_Tags = [] \<rparr>,
              \<lparr> intent_Name = ''web'', intent_Port = 8080, intent_Tags = [''blue''] \<rparr>]) of
      Inl err \<Rightarrow> False
    | Inr (regs, logs) \<Rightarrow>
        length regs = 2 \<and> reg_ID (regs ! 0) = ''task1_web_8080'' \<and> reg_ID (regs ! 1) = ''task1_web_8080'')"
  by (simp add: example_defs eval_defs)

text \<open>
  Claim C10. Whenever \<open>marathonTaskToConsulServices\<close> returns registrations, the check set
  was computed by one call of \<open>marathonToConsulChecks\<close> on the task, the app's health checks
  and the resolved address (the returned log is the log of that one call), there is one
  registration per intent, and every registration carries that same check list, whatever
  its intent's name or port.
\<close>

theorem checks_shared_by_all_registrations:
  assumes "marathonTaskToConsulServices lib c task app = Inr (regs, logs)"
  shows "\<exists>serviceAddress checks.
           HostToIPv4 lib (task_Host task) = Inr serviceAddress
         \<and> marathonToConsulChecks lib c task (app_HealthChecks app) serviceAddress = Inr (checks, logs)
         \<and> length regs = length (app_RegistrationIntents app task (ConsulNameSeparator c))
         \<and> (\<forall>r \<in> set regs. reg_Checks r = checks)"
proof -
  from assms obtain serviceAddress where
    a: "HostToIPv4 lib (task_Host task) = Inr serviceAddress"
    by (auto simp: marathonTaskToConsulServices_def split: sum.splits)
  with assms obtain checks where
    k: "marathonToConsulChecks lib c task (app_HealthChecks app) serviceAddress = Inr (checks, logs)"
    and r: "regs = map (\<lambda>intent.
      \<lparr> reg_ID = serviceID task (intent_Name intent) (intent_Port intent),
        reg_Name = intent_Name intent,
        reg_Tags = [Tag c] @ intent_Tags intent @ [MarathonTaskTag (task_ID task)],
        reg_Port = intent_Port intent,
        reg_Address = serviceAddress,
        reg_Checks = checks \<rparr>) (app_RegistrationIntents app task (ConsulNameSeparator c))"
    by (auto simp: marathonTaskToConsulServices_def split: sum.splits)
  from r have l: "length regs = length (app_RegistrationIntents app task (ConsulNameSeparator c))"
    by simp
  from r have s: "\<forall>r \<in> set regs. reg_Checks r = checks" by auto
  from a k l s show ?thesis by (intro exI conjI)
qed

lemma example_two_intents_value:
  "marathonTaskToConsulServices example_library example_config example_task
     (example_app
        [\<lparr> intent_Name = ''web'', intent_Port = 8080, intent_Tags = [] \<rparr>,
         \<lparr> intent_Name = ''admin'', intent_Port = 8081, intent_Tags = [''internal''] \<rparr>])
   = Inr ([\<lparr> reg_ID = ''task1_web_8080'', reg_Name = ''web'',
             reg_Tags = [''marathon'', ''marathon-task:task1''], reg_Port = 8080,
             reg_Address = ''10.0.0.5'',
             reg_Checks = [\<lparr> check_Script = [], check_HTTP = ''http://10.0.0.5:8080/health'',
                 check_TCP = [], check_Interval = ''10s'', check_Timeout = ''5s'',
                 check_Status = ''passing'' \<rparr>] \<rparr>,
           \<lparr> reg_ID = ''task1_admin_8081'', reg_Name = ''admin'',
             reg_Tags = [''marathon'', ''internal'', ''marathon-task:task1''], reg_Port = 8081,
             reg_Address = ''10.0.0.5'',
             reg_Checks = [\<lparr> check_Script = [], check_HTTP = ''http://10.0.0.5:8080/health'',
                 check_TCP = [], check_Interval = ''10s'', check_Timeout = ''5s'',
                 check_Status = ''passing'' \<rparr>] \<rparr>], [])"
  by (simp add: example_defs eval_defs)

text \<open>The theorem at the task with the intents \<open>web:8080\<close> and \<open>admin:8081\<close>.\<close>

theorem checks_shared_by_all_registrations_witness:
  "\<exists>regs checks.
       marathonTaskToConsulServices example_library example_config example_task
         (example_app
            [\<lparr> intent_Name = ''web'', intent_Port = 8080, intent_Tags = [] \<rparr>,
             \<lparr> intent_Name = ''admin'', intent_Port = 8081, intent_Tags = [''internal''] \<rparr>])
         = Inr (regs, [])
     \<and> length regs = 2
     \<and> checks \<noteq> []
     \<and> reg_Checks (regs ! 0) = checks \<and> reg_Checks (regs ! 1) = checks"
proof -
  let ?app = "example_app
            [\<lparr> intent_Name = ''web'', intent_Port = 8080, intent_Tags = [] \<rparr>,
             \<lparr> intent_Name = ''admin'', intent_Port = 8081, intent_Tags = [''internal''] \<rparr>]"
  let ?regs = "[\<lparr> reg_ID = ''task1_web_8080'', reg_Name = ''web'',
             reg_Tags = [''marathon'', ''marathon-task:task1''], reg_Port = 8080,
             reg_Address = ''10.0.0.5'',
             reg_Checks = [\<lparr> check_Script = [], check_HTTP = ''http://10.0.0.5:8080/health'',
                 check_TCP = [], check_Interval = ''10s'', check_Timeout = ''5s'',
                 check_Status = ''passing'' \<rparr>] \<rparr>,
           \<lparr> reg_ID = ''task1_admin_8081'', reg_Name = ''admin'',
             reg_Tags = [''marathon'', ''internal'', ''marathon-task:task1''], reg_Port = 8081,
             reg_Address = ''10.0.0.5'',
             reg_Checks = [\<lparr> check_Script = [], check_HTTP = ''http://10.0.0.5:8080/health'',
                 check_TCP = [], check_Interval = ''10s'', check_Timeout = ''5s'',
                 check_Status = ''passing'' \<rparr>] \<rparr>]"
  have h: "marathonTaskToConsulServices example_library example_config example_task ?app
      = Inr (?regs, [])"
    by (rule example_two_intents_value)
  from checks_shared_by_all_registrations [OF h] obtain serviceAddress checks where
    s: "\<forall>r \<in> set ?regs. reg_Checks r = checks"
    by (elim exE conjE)
  from s have c0: "reg_Checks (?regs ! 0) = checks" and c1: "reg_Checks (?regs ! 1) = checks"
    by simp_all
  from c0 have ne: "checks \<noteq> []" by auto
  have l: "length ?regs = 2" by simp
  from h l ne c0 c1 show ?thesis by (intro exI conjI)
qed

text \<open>
  Claim C4 fails on the code. A health check with \<open>Port = 0\<close> whose \<open>PortIndex\<close> is not
  covered by the task's ports makes line 319 (\<open>task.Ports[check.PortIndex]\<close>) panic: the
  translation aborts instead of dropping the check. Here the task has the single port 8080
  and the check asks for port index 1.
\<close>

theorem checks_panic_on_uncovered_port_index:
  "marathonToConsulChecks lib example_config example_task
     [\<lparr> hc_Protocol = ''TCP'', hc_Path = [], hc_Port = 0, hc_PortIndex = 1,
        hc_IntervalSeconds = 10, hc_TimeoutSeconds = 5, hc_Command = [] \<rparr>]
     ''10.0.0.5''
   = Inl PanicIndexOutOfRange"
  by (simp add: example_config_def example_task_def eval_defs)

text \<open>
  When every health check has an explicit port or a covered port index, the check
  translation always completes: an unparsable path and an unrecognized protocol only drop
  the check.
\<close>

lemma checks_total_when_ports_covered:
  "\<forall>h \<in> set healthChecks.
      hc_Port h \<noteq> 0 \<or> (0 \<le> hc_PortIndex h \<and> hc_PortIndex h < int (length (task_Ports task)))
   \<Longrightarrow> \<exists>checks logs. marathonToConsulChecks lib c task healthChecks serviceAddress = Inr (checks, logs)"
  using loop_total [of healthChecks task lib "getIgnoredHealthCheckTypes lib c" serviceAddress "([], [])"]
  by (auto simp: marathonToConsulChecks_def)

lemmas strings_defs =
  ToUpper_def TrimSpace_def is_ascii_def ascii_ToUpper_def ascii_TrimSpace_def toUpper_char_def
  lower_letters_def upper_letters_def isSpace_def

lemma getIgnored_tcp_command:
  "IgnoredHealthChecks c = ''tcp, command'' \<Longrightarrow> getIgnoredHealthCheckTypes lib c = [''TCP'', ''COMMAND'']"
  by (simp add: getIgnoredHealthCheckTypes_def strings_defs)

lemma getIgnored_empty:
  "IgnoredHealthChecks c = [] \<Longrightarrow> getIgnoredHealthCheckTypes lib c = []"
  by (simp add: getIgnoredHealthCheckTypes_def strings_defs)

lemma ToUpper_protocol_names:
  "ToUpper lib ''HTTP'' = ''HTTP''" "ToUpper lib ''HTTPS'' = ''HTTPS''"
  "ToUpper lib ''TCP'' = ''TCP''" "ToUpper lib ''COMMAND'' = ''COMMAND''"
  by (simp_all add: strings_defs)

lemma loop_skips_ignored:
  "fst acc = fst acc' \<Longrightarrow>
   map_sum id fst (marathonToConsulChecks_loop lib ig task addr hcs acc) =
   map_sum id fst (marathonToConsulChecks_loop lib ig task addr
       (filter (\<lambda>h. \<not> contains ig (hc_Protocol h)) hcs) acc')"
proof (induction hcs arbitrary: acc acc')
  case Nil
  then show ?case by simp
next
  case (Cons h hcs)
  show ?case
  proof (cases "contains ig (hc_Protocol h)")
    case True
    have "fst (fst acc @ [], snd acc @ [(Info, ''Ignoring health check of type '' @ hc_Protocol h)]) = fst acc'"
      using Cons.prems by simp
    from Cons.IH [OF this] True show ?thesis by (simp add: body_ignored)
  next
    case False
    show ?thesis
    proof (cases "marathonToConsulChecks_body lib ig task addr h")
      case (Inl p)
      with False show ?thesis by simp
    next
      case (Inr r)
      obtain cs ls where r: "r = (cs, ls)" by (cases r)
      have "fst (fst acc @ cs, snd acc @ ls) = fst (fst acc' @ cs, snd acc' @ ls)"
        using Cons.prems by simp
      from Cons.IH [OF this] False Inr r show ?thesis by simp
    qed
  qed
qed

text \<open>A health check whose upper-cased protocol is on the ignored list builds no check.\<close>

lemma body_any_casing_builds_nothing:
  assumes "contains ig (ToUpper lib (hc_Protocol h))"
    and "marathonToConsulChecks_body lib ig task addr h = Inr (cs, ls)"
  shows "cs = []"
proof (cases "contains ig (hc_Protocol h)")
  case True
  with assms(2) show ?thesis by (simp add: marathonToConsulChecks_body_def)
next
  case False
  with assms(1) have "ToUpper lib (hc_Protocol h) \<noteq> hc_Protocol h" by auto
  then have "hc_Protocol h \<noteq> ''HTTP''" "hc_Protocol h \<noteq> ''HTTPS''"
    "hc_Protocol h \<noteq> ''TCP''" "hc_Protocol h \<noteq> ''COMMAND''"
    using ToUpper_protocol_names [of lib] by auto
  with False assms(2) show ?thesis
    by (auto simp: marathonToConsulChecks_body_def Let_def split: if_splits sum.splits)
qed

lemma loop_drops_any_casing:
  "marathonToConsulChecks_loop lib ig task addr hcs acc = Inr (checks, logs) \<Longrightarrow>
   \<exists>logs'. marathonToConsulChecks_loop lib ig task addr
       (filter (\<lambda>h. \<not> contains ig (ToUpper lib (hc_Protocol h))) hcs) (fst acc, ls0)
     = Inr (checks, logs')"
proof (induction hcs arbitrary: acc ls0)
  case Nil
  then show ?case by auto
next
  case (Cons h hcs)
  from Cons.prems obtain cs ls where
    b: "marathonToConsulChecks_body lib ig task addr h = Inr (cs, ls)"
    and r: "marathonToConsulChecks_loop lib ig task addr hcs (fst acc @ cs, snd acc @ ls) = Inr (checks, logs)"
    by (auto split: sum.splits)
  show ?case
  proof (cases "contains ig (ToUpper lib (hc_Protocol h))")
    case True
    from body_any_casing_builds_nothing [OF True b] have "cs = []" .
    with Cons.IH [OF r, of ls0] True show ?thesis by simp
  next
    case False
    from Cons.IH [OF r, of "ls0 @ ls"] False b show ?thesis by simp
  qed
qed

text \<open>
  Claim C6, as amended. The ignored list is made of the non-empty trimmed entries of the
  upper-cased configuration string split at commas, so a protocol is on it exactly when it
  is such an entry, and two configuration strings with the same upper-casing give the same
  list: the casing and the surrounding white space of the configured entries do not matter
  (\<open>"tcp, command"\<close> gives \<open>TCP\<close> and \<open>COMMAND\<close>). The check's own protocol is compared with
  the list as it is written. A health check whose protocol is on the list is skipped before
  its port is read: the result of the translation is the result without these health checks.
  A health check whose protocol is on the list only after upper-casing is not skipped by the
  list, but no check is built from it either: whenever the translation returns, the checks
  built are those built from the health checks whose upper-cased protocol is not on the list.
  With \<open>"tcp, command"\<close> these are the health checks that are not TCP or COMMAND in any
  casing.
\<close>

theorem ignored_health_check_types:
  "(contains (getIgnoredHealthCheckTypes lib c) p \<longleftrightarrow>
      p \<noteq> [] \<and> (\<exists>entry \<in> set (Split (ToUpper lib (IgnoredHealthChecks c)) CHR '','').
                   p = TrimSpace lib entry))
   \<and> (ToUpper lib (IgnoredHealthChecks c) = ToUpper lib (IgnoredHealthChecks c') \<longrightarrow>
        getIgnoredHealthCheckTypes lib c = getIgnoredHealthCheckTypes lib c')
   \<and> (IgnoredHealthChecks c = ''tcp, command'' \<longrightarrow>
        getIgnoredHealthCheckTypes lib c = [''TCP'', ''COMMAND''])
   \<and> map_sum id fst (marathonToConsulChecks lib c task healthChecks serviceAddress) =
       map_sum id fst (marathonToConsulChecks lib c task
         (filter (\<lambda>h. \<not> contains (getIgnoredHealthCheckTypes lib c) (hc_Protocol h)) healthChecks)
         serviceAddress)
   \<and> (\<forall>checks logs.
        marathonToConsulChecks lib c task healthChecks serviceAddress = Inr (checks, logs) \<longrightarrow>
        (\<exists>logs'. marathonToConsulChecks lib c task
            (filter (\<lambda>h. \<not> contains (getIgnoredHealthCheckTypes lib c) (ToUpper lib (hc_Protocol h)))
               healthChecks)
            serviceAddress = Inr (checks, logs')))
   \<and> (IgnoredHealthChecks c = ''tcp, command'' \<longrightarrow>
        (\<forall>checks logs.
           marathonToConsulChecks lib c task healthChecks serviceAddress = Inr (checks, logs) \<longrightarrow>
           (\<exists>logs'. marathonToConsulChecks lib c task
               (filter (\<lambda>h. ToUpper lib (hc_Protocol h) \<noteq> ''TCP''
                           \<and> ToUpper lib (hc_Protocol h) \<noteq> ''COMMAND'') healthChecks)
               serviceAddress = Inr (checks, logs'))))"
proof (intro conjI allI impI)
  show "contains (getIgnoredHealthCheckTypes lib c) p \<longleftrightarrow>
      p \<noteq> [] \<and> (\<exists>entry \<in> set (Split (ToUpper lib (IgnoredHealthChecks c)) CHR '','').
                   p = TrimSpace lib entry)"
    by (simp add: contains_iff getIgnoredHealthCheckTypes_entries)
next
  assume "ToUpper lib (IgnoredHealthChecks c) = ToUpper lib (IgnoredHealthChecks c')"
  then show "getIgnoredHealthCheckTypes lib c = getIgnoredHealthCheckTypes lib c'"
    by (simp add: getIgnoredHealthCheckTypes_def)
next
  assume "IgnoredHealthChecks c = ''tcp, command''"
  then show "getIgnoredHealthCheckTypes lib c = [''TCP'', ''COMMAND'']"
    by (rule getIgnored_tcp_command)
next
  show "map_sum id fst (marathonToConsulChecks lib c task healthChecks serviceAddress) =
       map_sum id fst (marathonToConsulChecks lib c task
         (filter (\<lambda>h. \<not> contains (getIgnoredHealthCheckTypes lib c) (hc_Protocol h)) healthChecks)
         serviceAddress)"
    unfolding marathonToConsulChecks_def by (rule loop_skips_ignored) simp
next
  fix checks logs
  assume "marathonToConsulChecks lib c task healthChecks serviceAddress = Inr (checks, logs)"
  then have "marathonToConsulChecks_loop lib (getIgnoredHealthCheckTypes lib c) task serviceAddress
      healthChecks ([], []) = Inr (checks, logs)"
    by (simp add: marathonToConsulChecks_def)
  from loop_drops_any_casing [OF this, of "[]"]
  show "\<exists>logs'. marathonToConsulChecks lib c task
            (filter (\<lambda>h. \<not> contains (getIgnoredHealthCheckTypes lib c) (ToUpper lib (hc_Protocol h)))
               healthChecks)
            serviceAddress = Inr (checks, logs')"
    by (simp add: marathonToConsulChecks_def)
next
  fix checks logs
  assume i: "IgnoredHealthChecks c = ''tcp, command''"
    and "marathonToConsulChecks lib c task healthChecks serviceAddress = Inr (checks, logs)"
  then have "marathonToConsulChecks_loop lib (getIgnoredHealthCheckTypes lib c) task serviceAddress
      healthChecks ([], []) = Inr (checks, logs)"
    by (simp add: marathonToConsulChecks_def)
  from loop_drops_any_casing [OF this, of "[]"] obtain logs' where
    l: "marathonToConsulChecks_loop lib (getIgnoredHealthCheckTypes lib c) task serviceAddress
       (filter (\<lambda>h. \<not> contains (getIgnoredHealthCheckTypes lib c) (ToUpper lib (hc_Protocol h)))
          healthChecks) ([], [])
     = Inr (checks, logs')"
    by auto
  from i have g: "getIgnoredHealthCheckTypes lib c = [''TCP'', ''COMMAND'']"
    by (rule getIgnored_tcp_command)
  have "filter (\<lambda>h. \<not> contains (getIgnoredHealthCheckTypes lib c) (ToUpper lib (hc_Protocol h)))
          healthChecks
      = filter (\<lambda>h. ToUpper lib (hc_Protocol h) \<noteq> ''TCP'' \<and> ToUpper lib (hc_Protocol h) \<noteq> ''COMMAND'')
          healthChecks"
    by (intro filter_cong refl) (simp add: g eq_commute)
  with l have "marathonToConsulChecks lib c task
               (filter (\<lambda>h. ToUpper lib (hc_Protocol h) \<noteq> ''TCP''
                           \<and> ToUpper lib (hc_Protocol h) \<noteq> ''COMMAND'') healthChecks)
               serviceAddress = Inr (checks, logs')"
    by (simp add: marathonToConsulChecks_def)
  then show "\<exists>logs'. marathonToConsulChecks lib c task
               (filter (\<lambda>h. ToUpper lib (hc_Protocol h) \<noteq> ''TCP''
                           \<and> ToUpper lib (hc_Protocol h) \<noteq> ''COMMAND'') healthChecks)
               serviceAddress = Inr (checks, logs')"
    by (rule exI)
qed

lemma example_ignoring_run:
  "marathonToConsulChecks example_library example_ignoring_config example_task
        [example_check ''TCP'' 9000 0, example_check ''tcp'' 9000 0, example_check ''HTTP'' 0 0,
         example_check ''Command'' 0 0]
        ''10.0.0.5''
   = Inr ([\<lparr> check_Script = [], check_HTTP = ''http://10.0.0.5:8080/health'', check_TCP = [],
              check_Interval = ''10s'', check_Timeout = ''5s'', check_Status = ''passing'' \<rparr>],
          [(Info, ''Ignoring health check of type TCP''),
           (Warn, ''Unrecognized check protocol tcp''),
           (Warn, ''Unrecognized check protocol Command'')])"
  by (simp add: example_ignoring_config_def example_check_def example_defs eval_defs)

text \<open>The theorem at \<open>"tcp, command"\<close> and the health checks \<open>TCP\<close>, \<open>tcp\<close>, \<open>HTTP\<close> and
  \<open>Command\<close>: only the HTTP check is built.\<close>

theorem ignored_health_check_types_witness:
  "IgnoredHealthChecks example_ignoring_config = ''tcp, command''
   \<and> marathonToConsulChecks example_library example_ignoring_config example_task
        [example_check ''TCP'' 9000 0, example_check ''tcp'' 9000 0, example_check ''HTTP'' 0 0,
         example_check ''Command'' 0 0]
        ''10.0.0.5''
      = Inr ([\<lparr> check_Script = [], check_HTTP = ''http://10.0.0.5:8080/health'', check_TCP = [],
              check_Interval = ''10s'', check_Timeout = ''5s'', check_Status = ''passing'' \<rparr>],
          [(Info, ''Ignoring health check of type TCP''),
           (Warn, ''Unrecognized check protocol tcp''),
           (Warn, ''Unrecognized check protocol Command'')])
   \<and> getIgnoredHealthCheckTypes example_library example_ignoring_config = [''TCP'', ''COMMAND'']
   \<and> (\<exists>logs'. marathonToConsulChecks example_library example_ignoring_config example_task
          [example_check ''HTTP'' 0 0] ''10.0.0.5''
        = Inr ([\<lparr> check_Script = [], check_HTTP = ''http://10.0.0.5:8080/health'', check_TCP = [],
              check_Interval = ''10s'', check_Timeout = ''5s'', check_Status = ''passing'' \<rparr>], logs'))"
proof -
  let ?hcs = "[example_check ''TCP'' 9000 0, example_check ''tcp'' 9000 0, example_check ''HTTP'' 0 0,
         example_check ''Command'' 0 0]"
  let ?built = "[\<lparr> check_Script = [], check_HTTP = ''http://10.0.0.5:8080/health'', check_TCP = [],
              check_Interval = ''10s'', check_Timeout = ''5s'', check_Status = ''passing'' \<rparr>]"
  have h: "IgnoredHealthChecks example_ignoring_config = ''tcp, command''"
    by (simp add: example_ignoring_config_def)
  note r = example_ignoring_run
  note t = ignored_health_check_types [of example_library example_ignoring_config "''TCP''"
      example_ignoring_config example_task ?hcs "''10.0.0.5''"]
  from t have "IgnoredHealthChecks example_ignoring_config = ''tcp, command'' \<longrightarrow>
        getIgnoredHealthCheckTypes example_library example_ignoring_config = [''TCP'', ''COMMAND'']"
    by (elim conjE)
  with h have g: "getIgnoredHealthCheckTypes example_library example_ignoring_config = [''TCP'', ''COMMAND'']"
    by (elim impE)
  from t have "IgnoredHealthChecks example_ignoring_config = ''tcp, command'' \<longrightarrow>
        (\<forall>checks logs.
           marathonToConsulChecks example_library example_ignoring_config example_task ?hcs ''10.0.0.5''
             = Inr (checks, logs) \<longrightarrow>
           (\<exists>logs'. marathonToConsulChecks example_library example_ignoring_config example_task
               (filter (\<lambda>h. ToUpper example_library (hc_Protocol h) \<noteq> ''TCP''
                           \<and> ToUpper example_library (hc_Protocol h) \<noteq> ''COMMAND'') ?hcs)
               ''10.0.0.5'' = Inr (checks, logs')))"
    by (elim conjE)
  from this [rule_format, OF h r]
  have "\<exists>logs'. marathonToConsulChecks example_library example_ignoring_config example_task
               (filter (\<lambda>h. ToUpper example_library (hc_Protocol h) \<noteq> ''TCP''
                           \<and> ToUpper example_library (hc_Protocol h) \<noteq> ''COMMAND'') ?hcs)
               ''10.0.0.5'' = Inr (?built, logs')" .
  moreover have "filter (\<lambda>h. ToUpper example_library (hc_Protocol h) \<noteq> ''TCP''
                           \<and> ToUpper example_library (hc_Protocol h) \<noteq> ''COMMAND'') ?hcs
      = [example_check ''HTTP'' 0 0]"
    by (simp add: example_check_def strings_defs)
  ultimately have f: "\<exists>logs'. marathonToConsulChecks example_library example_ignoring_config example_task
          [example_check ''HTTP'' 0 0] ''10.0.0.5'' = Inr (?built, logs')"
    by (simp only:)
  from h r g f show ?thesis by (intro conjI)
qed

text \<open>
  Claim C6 as stated fails for the casing of the check's own protocol: with
  \<open>"tcp, command"\<close> the protocol \<open>TCP\<close> is on the ignored list and \<open>tcp\<close> is not. The \<open>TCP\<close>
  check is skipped as ignored; the \<open>tcp\<close> check is not matched, reaches the protocol switch
  and is reported as unrecognized.
\<close>

theorem ignored_types_case_sensitive_counterexample:
  "contains (getIgnoredHealthCheckTypes example_library example_ignoring_config) ''TCP''
   \<and> \<not> contains (getIgnoredHealthCheckTypes example_library example_ignoring_config) ''tcp''
   \<and> marathonToConsulChecks example_library example_ignoring_config example_task
        [example_check ''TCP'' 9000 0] ''10.0.0.5''
       = Inr ([], [(Info, ''Ignoring health check of type TCP'')])
   \<and> marathonToConsulChecks example_library example_ignoring_config example_task
        [example_check ''tcp'' 9000 0] ''10.0.0.5''
       = Inr ([], [(Warn, ''Unrecognized check protocol tcp'')])"
  by (simp add: example_ignoring_config_def example_check_def example_defs eval_defs)

lemma sprintf_d_8080: "sprintf_d 8080 = ''8080''"
  by (simp add: sprintf_d_def sprintf_nat.simps digit_chars_def)

lemma sprintf_d_9000: "sprintf_d 9000 = ''9000''"
  by (simp add: sprintf_d_def sprintf_nat.simps digit_chars_def)

lemma ToLower_HTTP: "ToLower ''HTTP'' = ''http''"
  by (simp add: ToLower_def toLower_char_def lower_letters_def upper_letters_def)

lemma body_builds:
  assumes "marathonToConsulChecks_body lib ig task addr h = Inr (cs, ls)"
  shows "if builds_check lib ig h then (\<exists>k. cs = [k] \<and> carries h k) else cs = []"
  using assms
  by (auto simp: marathonToConsulChecks_body_def builds_check_def carries_def Let_def
      split: if_splits sum.splits)

lemma loop_builds:
  "marathonToConsulChecks_loop lib ig task addr hcs acc = Inr (checks, logs) \<Longrightarrow>
   \<exists>new. checks = fst acc @ new \<and> list_all2 carries (filter (builds_check lib ig) hcs) new"
proof (induction hcs arbitrary: acc)
  case Nil
  then show ?case by auto
next
  case (Cons h hcs)
  from Cons.prems obtain cs ls where
    b: "marathonToConsulChecks_body lib ig task addr h = Inr (cs, ls)"
    and r: "marathonToConsulChecks_loop lib ig task addr hcs (fst acc @ cs, snd acc @ ls) = Inr (checks, logs)"
    by (auto split: sum.splits)
  from Cons.IH [OF r] obtain new2 where
    c: "checks = (fst acc @ cs) @ new2"
    and a: "list_all2 carries (filter (builds_check lib ig) hcs) new2"
    by auto
  show ?case
  proof (cases "builds_check lib ig h")
    case True
    with body_builds [OF b] obtain k where k: "cs = [k]" "carries h k" by auto
    with True a have "list_all2 carries (filter (builds_check lib ig) (h # hcs)) (k # new2)" by simp
    with c k show ?thesis by (intro exI [of _ "k # new2"]) simp
  next
    case False
    with body_builds [OF b] have "cs = []" by simp
    with False a c show ?thesis by (intro exI [of _ new2]) simp
  qed
qed

text \<open>
  Claim C7. When \<open>HTTP\<close> is not ignored, the check \<open>{Protocol: "HTTP", Path: "/health",
  PortIndex: 0}\<close> over \<open>Ports = [8080]\<close> and the address 10.0.0.5 yields one HTTP check whose
  target is the URL that \<open>url.ParseRequestURI\<close> returns for \<open>/health\<close>, with the scheme
  \<open>http\<close> and the host \<open>10.0.0.5:8080\<close>, as \<open>(*URL).String\<close> prints it. When \<open>TCP\<close> is not
  ignored, the check \<open>{Protocol: "TCP", Port: 9000}\<close> yields one TCP check at
  \<open>address:9000\<close>. When \<open>FOO\<close> is not ignored, the check \<open>{Protocol: "FOO"}\<close> on a task
  with a port yields no check and the warning \<open>Unrecognized check protocol FOO\<close>. Whenever
  the translation returns, the built checks are, one for one and in order, those of the
  health checks for which the switch builds a check (not ignored, and HTTP or HTTPS with a
  path that parses, or TCP, or COMMAND), and each built check has the status \<open>passing\<close> and
  the \<open>IntervalSeconds\<close> and \<open>TimeoutSeconds\<close> of its own health check, followed by \<open>s\<close>,
  as interval and timeout.
\<close>

theorem health_check_mapping:
  "(\<forall>u. \<not> contains (getIgnoredHealthCheckTypes lib c) ''HTTP'' \<longrightarrow>
        ParseRequestURI lib ''/health'' = Inr u \<longrightarrow> task_Ports task = [8080] \<longrightarrow>
        marathonToConsulChecks lib c task
          [\<lparr> hc_Protocol = ''HTTP'', hc_Path = ''/health'', hc_Port = 0, hc_PortIndex = 0,
             hc_IntervalSeconds = interval, hc_TimeoutSeconds = timeout, hc_Command = command \<rparr>]
          ''10.0.0.5''
        = Inr ([\<lparr> check_Script = [],
                  check_HTTP = URL_String lib
                    (u \<lparr> url_Scheme := ''http'', url_Host := ''10.0.0.5:8080'' \<rparr>),
                  check_TCP = [],
                  check_Interval = sprintf_d interval @ ''s'',
                  check_Timeout = sprintf_d timeout @ ''s'',
                  check_Status = ''passing'' \<rparr>], []))
   \<and> (\<not> contains (getIgnoredHealthCheckTypes lib c) ''TCP'' \<longrightarrow>
        marathonToConsulChecks lib c task
          [\<lparr> hc_Protocol = ''TCP'', hc_Path = path, hc_Port = 9000, hc_PortIndex = portIndex,
             hc_IntervalSeconds = interval, hc_TimeoutSeconds = timeout, hc_Command = command \<rparr>]
          address
        = Inr ([\<lparr> check_Script = [], check_HTTP = [],
                  check_TCP = address @ '':9000'',
                  check_Interval = sprintf_d interval @ ''s'',
                  check_Timeout = sprintf_d timeout @ ''s'',
                  check_Status = ''passing'' \<rparr>], []))
   \<and> (\<not> contains (getIgnoredHealthCheckTypes lib c) ''FOO'' \<longrightarrow> task_Ports task \<noteq> [] \<longrightarrow>
        marathonToConsulChecks lib c task
          [\<lparr> hc_Protocol = ''FOO'', hc_Path = [], hc_Port = 0, hc_PortIndex = 0,
             hc_IntervalSeconds = interval, hc_TimeoutSeconds = timeout, hc_Command = [] \<rparr>]
          address
        = Inr ([], [(Warn, ''Unrecognized check protocol FOO'')]))
   \<and> (\<forall>healthChecks checks logs.
        marathonToConsulChecks lib c task healthChecks address = Inr (checks, logs) \<longrightarrow>
        list_all2
          (\<lambda>h k. check_Status k = ''passing''
                 \<and> check_Interval k = sprintf_d (hc_IntervalSeconds h) @ ''s''
                 \<and> check_Timeout k = sprintf_d (hc_TimeoutSeconds h) @ ''s'')
          (filter
             (\<lambda>h. \<not> contains (getIgnoredHealthCheckTypes lib c) (hc_Protocol h)
                  \<and> ((hc_Protocol h = ''HTTP'' \<or> hc_Protocol h = ''HTTPS'')
                        \<and> (\<exists>u. ParseRequestURI lib (hc_Path h) = Inr u)
                     \<or> hc_Protocol h = ''TCP'' \<or> hc_Protocol h = ''COMMAND''))
             healthChecks)
          checks)"
proof (intro conjI allI impI)
  fix u
  assume "\<not> contains (getIgnoredHealthCheckTypes lib c) ''HTTP''"
    and "ParseRequestURI lib ''/health'' = Inr u" and "task_Ports task = [8080]"
  then show "marathonToConsulChecks lib c task
          [\<lparr> hc_Protocol = ''HTTP'', hc_Path = ''/health'', hc_Port = 0, hc_PortIndex = 0,
             hc_IntervalSeconds = interval, hc_TimeoutSeconds = timeout, hc_Command = command \<rparr>]
          ''10.0.0.5''
        = Inr ([\<lparr> check_Script = [],
                  check_HTTP = URL_String lib
                    (u \<lparr> url_Scheme := ''http'', url_Host := ''10.0.0.5:8080'' \<rparr>),
                  check_TCP = [],
                  check_Interval = sprintf_d interval @ ''s'',
                  check_Timeout = sprintf_d timeout @ ''s'',
                  check_Status = ''passing'' \<rparr>], [])"
    by (simp add: marathonToConsulChecks_def marathonToConsulChecks_body_def go_index_def
        sprintf_d_8080 ToLower_HTTP)
next
  assume "\<not> contains (getIgnoredHealthCheckTypes lib c) ''TCP''"
  then show "marathonToConsulChecks lib c task
          [\<lparr> hc_Protocol = ''TCP'', hc_Path = path, hc_Port = 9000, hc_PortIndex = portIndex,
             hc_IntervalSeconds = interval, hc_TimeoutSeconds = timeout, hc_Command = command \<rparr>]
          address
        = Inr ([\<lparr> check_Script = [], check_HTTP = [],
                  check_TCP = address @ '':9000'',
                  check_Interval = sprintf_d interval @ ''s'',
                  check_Timeout = sprintf_d timeout @ ''s'',
                  check_Status = ''passing'' \<rparr>], [])"
    by (simp add: marathonToConsulChecks_def marathonToConsulChecks_body_def sprintf_d_9000)
next
  assume "\<not> contains (getIgnoredHealthCheckTypes lib c) ''FOO''" and "task_Ports task \<noteq> []"
  then show "marathonToConsulChecks lib c task
          [\<lparr> hc_Protocol = ''FOO'', hc_Path = [], hc_Port = 0, hc_PortIndex = 0,
             hc_IntervalSeconds = interval, hc_TimeoutSeconds = timeout, hc_Command = [] \<rparr>]
          address
        = Inr ([], [(Warn, ''Unrecognized check protocol FOO'')])"
    by (simp add: marathonToConsulChecks_def marathonToConsulChecks_body_def go_index_def)
next
  fix healthChecks checks logs
  assume "marathonToConsulChecks lib c task healthChecks address = Inr (checks, logs)"
  then have "marathonToConsulChecks_loop lib (getIgnoredHealthCheckTypes lib c) task address
      healthChecks ([], []) = Inr (checks, logs)"
    by (simp add: marathonToConsulChecks_def)
  from loop_builds [OF this]
  have "list_all2 carries (filter (builds_check lib (getIgnoredHealthCheckTypes lib c)) healthChecks) checks"
    by simp
  moreover have "carries = (\<lambda>h k. check_Status k = ''passing''
                 \<and> check_Interval k = sprintf_d (hc_IntervalSeconds h) @ ''s''
                 \<and> check_Timeout k = sprintf_d (hc_TimeoutSeconds h) @ ''s'')"
    by (simp add: fun_eq_iff carries_def)
  moreover have "builds_check lib (getIgnoredHealthCheckTypes lib c) =
      (\<lambda>h. \<not> contains (getIgnoredHealthCheckTypes lib c) (hc_Protocol h)
                  \<and> ((hc_Protocol h = ''HTTP'' \<or> hc_Protocol h = ''HTTPS'')
                        \<and> (\<exists>u. ParseRequestURI lib (hc_Path h) = Inr u)
                     \<or> hc_Protocol h = ''TCP'' \<or> hc_Protocol h = ''COMMAND''))"
    by (simp add: fun_eq_iff builds_check_def)
  ultimately show "list_all2
          (\<lambda>h k. check_Status k = ''passing''
                 \<and> check_Interval k = sprintf_d (hc_IntervalSeconds h) @ ''s''
                 \<and> check_Timeout k = sprintf_d (hc_TimeoutSeconds h) @ ''s'')
          (filter
             (\<lambda>h. \<not> contains (getIgnoredHealthCheckTypes lib c) (hc_Protocol h)
                  \<and> ((hc_Protocol h = ''HTTP'' \<or> hc_Protocol h = ''HTTPS'')
                        \<and> (\<exists>u. ParseRequestURI lib (hc_Path h) = Inr u)
                     \<or> hc_Protocol h = ''TCP'' \<or> hc_Protocol h = ''COMMAND''))
             healthChecks)
          checks"
    by (simp only:)
qed

lemma example_three_checks_run:
  "marathonToConsulChecks example_library example_config example_task example_three_checks ''10.0.0.5''
   = Inr ([\<lparr> check_Script = [], check_HTTP = ''http://10.0.0.5:8080/health'', check_TCP = [],
              check_Interval = ''10s'', check_Timeout = ''5s'', check_Status = ''passing'' \<rparr>,
           \<lparr> check_Script = [], check_HTTP = [], check_TCP = ''10.0.0.5:9000'',
              check_Interval = ''60s'', check_Timeout = ''30s'', check_Status = ''passing'' \<rparr>],
          [(Warn, ''Unrecognized check protocol FOO'')])"
  by (simp add: example_three_checks_def example_defs eval_defs)

text \<open>The theorem with the example library, where the printed URL is
  \<open>http://10.0.0.5:8080/health\<close>, and at a list of an HTTP, a FOO and a TCP health check with
  different intervals and timeouts.\<close>

theorem health_check_mapping_witness:
  "\<not> contains (getIgnoredHealthCheckTypes example_library example_config) ''HTTP''
   \<and> \<not> contains (getIgnoredHealthCheckTypes example_library example_config) ''FOO''
   \<and> ParseRequestURI example_library ''/health''
       = Inr \<lparr> url_Scheme = [], url_Opaque = [], url_Host = [], url_Path = ''/health'',
               url_RawQuery = [], url_Fragment = [] \<rparr>
   \<and> task_Ports example_task = [8080]
   \<and> marathonToConsulChecks example_library example_config example_task
        [\<lparr> hc_Protocol = ''HTTP'', hc_Path = ''/health'', hc_Port = 0, hc_PortIndex = 0,
           hc_IntervalSeconds = 10, hc_TimeoutSeconds = 5, hc_Command = [] \<rparr>]
        ''10.0.0.5''
       = Inr ([\<lparr> check_Script = [], check_HTTP = ''http://10.0.0.5:8080/health'', check_TCP = [],
                 check_Interval = ''10s'', check_Timeout = ''5s'', check_Status = ''passing'' \<rparr>], [])
   \<and> marathonToConsulChecks example_library example_config example_task
        [\<lparr> hc_Protocol = ''FOO'', hc_Path = [], hc_Port = 0, hc_PortIndex = 0,
           hc_IntervalSeconds = 10, hc_TimeoutSeconds = 5, hc_Command = [] \<rparr>]
        ''10.0.0.5''
       = Inr ([], [(Warn, ''Unrecognized check protocol FOO'')])
   \<and> list_all2
        (\<lambda>h k. check_Status k = ''passing''
               \<and> check_Interval k = sprintf_d (hc_IntervalSeconds h) @ ''s''
               \<and> check_Timeout k = sprintf_d (hc_TimeoutSeconds h) @ ''s'')
        [example_three_checks ! 0, example_three_checks ! 2]
        [\<lparr> check_Script = [], check_HTTP = ''http://10.0.0.5:8080/health'', check_TCP = [],
              check_Interval = ''10s'', check_Timeout = ''5s'', check_Status = ''passing'' \<rparr>,
         \<lparr> check_Script = [], check_HTTP = [], check_TCP = ''10.0.0.5:9000'',
              check_Interval = ''60s'', check_Timeout = ''30s'', check_Status = ''passing'' \<rparr>]"
proof -
  have ig: "getIgnoredHealthCheckTypes example_library example_config = []"
    by (simp add: getIgnored_empty example_config_def)
  have nh: "\<not> contains (getIgnoredHealthCheckTypes example_library example_config) ''HTTP''"
    and nf: "\<not> contains (getIgnoredHealthCheckTypes example_library example_config) ''FOO''"
    by (simp_all add: ig)
  have p: "ParseRequestURI example_library ''/health''
       = Inr \<lparr> url_Scheme = [], url_Opaque = [], url_Host = [], url_Path = ''/health'',
               url_RawQuery = [], url_Fragment = [] \<rparr>"
    by (simp add: example_library_def)
  have ports: "task_Ports example_task = [8080]" by (simp add: example_task_def)
  then have ne: "task_Ports example_task \<noteq> []" by simp
  note m = health_check_mapping [of example_library example_config example_task 10 5 "[]" "[]" 0
      "''10.0.0.5''"]
  from m have "\<forall>u. \<not> contains (getIgnoredHealthCheckTypes example_library example_config) ''HTTP'' \<longrightarrow>
      ParseRequestURI example_library ''/health'' = Inr u \<longrightarrow>
      task_Ports example_task = [8080] \<longrightarrow>
        marathonToConsulChecks example_library example_config example_task
          [\<lparr> hc_Protocol = ''HTTP'', hc_Path = ''/health'', hc_Port = 0, hc_PortIndex = 0,
             hc_IntervalSeconds = 10, hc_TimeoutSeconds = 5, hc_Command = [] \<rparr>]
          ''10.0.0.5''
        = Inr ([\<lparr> check_Script = [],
                  check_HTTP = URL_String example_library
                    (u \<lparr> url_Scheme := ''http'', url_Host := ''10.0.0.5:8080'' \<rparr>),
                  check_TCP = [],
                  check_Interval = sprintf_d 10 @ ''s'',
                  check_Timeout = sprintf_d 5 @ ''s'',
                  check_Status = ''passing'' \<rparr>], [])"
    by (rule conjunct1)
  from this [rule_format, OF nh p ports]
  have http: "marathonToConsulChecks example_library example_config example_task
        [\<lparr> hc_Protocol = ''HTTP'', hc_Path = ''/health'', hc_Port = 0, hc_PortIndex = 0,
           hc_IntervalSeconds = 10, hc_TimeoutSeconds = 5, hc_Command = [] \<rparr>]
        ''10.0.0.5''
       = Inr ([\<lparr> check_Script = [], check_HTTP = ''http://10.0.0.5:8080/health'', check_TCP = [],
                 check_Interval = ''10s'', check_Timeout = ''5s'', check_Status = ''passing'' \<rparr>], [])"
    by (simp add: example_library_def sprintf_d_def sprintf_nat.simps digit_chars_def)
  from m have "\<not> contains (getIgnoredHealthCheckTypes example_library example_config) ''FOO'' \<longrightarrow>
        task_Ports example_task \<noteq> [] \<longrightarrow>
        marathonToConsulChecks example_library example_config example_task
          [\<lparr> hc_Protocol = ''FOO'', hc_Path = [], hc_Port = 0, hc_PortIndex = 0,
             hc_IntervalSeconds = 10, hc_TimeoutSeconds = 5, hc_Command = [] \<rparr>]
          ''10.0.0.5''
        = Inr ([], [(Warn, ''Unrecognized check protocol FOO'')])"
    by (elim conjE)
  from this [rule_format, OF nf ne]
  have foo: "marathonToConsulChecks example_library example_config example_task
          [\<lparr> hc_Protocol = ''FOO'', hc_Path = [], hc_Port = 0, hc_PortIndex = 0,
             hc_IntervalSeconds = 10, hc_TimeoutSeconds = 5, hc_Command = [] \<rparr>]
          ''10.0.0.5''
        = Inr ([], [(Warn, ''Unrecognized check protocol FOO'')])" .
  let ?built = "[\<lparr> check_Script = [], check_HTTP = ''http://10.0.0.5:8080/health'', check_TCP = [],
              check_Interval = ''10s'', check_Timeout = ''5s'', check_Status = ''passing'' \<rparr>,
         \<lparr> check_Script = [], check_HTTP = [], check_TCP = ''10.0.0.5:9000'',
              check_Interval = ''60s'', check_Timeout = ''30s'', check_Status = ''passing'' \<rparr>]"
  from m have "\<forall>healthChecks checks logs.
        marathonToConsulChecks example_library example_config example_task healthChecks ''10.0.0.5''
          = Inr (checks, logs) \<longrightarrow>
        list_all2
          (\<lambda>h k. check_Status k = ''passing''
                 \<and> check_Interval k = sprintf_d (hc_IntervalSeconds h) @ ''s''
                 \<and> check_Timeout k = sprintf_d (hc_TimeoutSeconds h) @ ''s'')
          (filter
             (\<lambda>h. \<not> contains (getIgnoredHealthCheckTypes example_library example_config) (hc_Protocol h)
                  \<and> ((hc_Protocol h = ''HTTP'' \<or> hc_Protocol h = ''HTTPS'')
                        \<and> (\<exists>u. ParseRequestURI example_library (hc_Path h) = Inr u)
                     \<or> hc_Protocol h = ''TCP'' \<or> hc_Protocol h = ''COMMAND''))
             healthChecks)
          checks"
    by (elim conjE)
  from this [rule_format, OF example_three_checks_run]
  have "list_all2
          (\<lambda>h k. check_Status k = ''passing''
                 \<and> check_Interval k = sprintf_d (hc_IntervalSeconds h) @ ''s''
                 \<and> check_Timeout k = sprintf_d (hc_TimeoutSeconds h) @ ''s'')
          (filter
             (\<lambda>h. \<not> contains (getIgnoredHealthCheckTypes example_library example_config) (hc_Protocol h)
                  \<and> ((hc_Protocol h = ''HTTP'' \<or> hc_Protocol h = ''HTTPS'')
                        \<and> (\<exists>u. ParseRequestURI example_library (hc_Path h) = Inr u)
                     \<or> hc_Protocol h = ''TCP'' \<or> hc_Protocol h = ''COMMAND''))
             example_three_checks)
          ?built" .
  moreover have "filter
             (\<lambda>h. \<not> contains (getIgnoredHealthCheckTypes example_library example_config) (hc_Protocol h)
                  \<and> ((hc_Protocol h = ''HTTP'' \<or> hc_Protocol h = ''HTTPS'')
                        \<and> (\<exists>u. ParseRequestURI example_library (hc_Path h) = Inr u)
                     \<or> hc_Protocol h = ''TCP'' \<or> hc_Protocol h = ''COMMAND''))
             example_three_checks
      = [example_three_checks ! 0, example_three_checks ! 2]"
    by (simp add: ig example_three_checks_def p)
  ultimately have l: "list_all2
        (\<lambda>h k. check_Status k = ''passing''
               \<and> check_Interval k = sprintf_d (hc_IntervalSeconds h) @ ''s''
               \<and> check_Timeout k = sprintf_d (hc_TimeoutSeconds h) @ ''s'')
        [example_three_checks ! 0, example_three_checks ! 2] ?built"
    by (simp only:)
  from nh nf p ports http foo l show ?thesis by (intro conjI)
qed

lemma getServicesUsingAgent_loop_all_succeed:
  "\<forall>dc \<in> set datacenters. Catalog_Service agent name (Tag c) \<lparr> Datacenter = dc \<rparr> = Inr (results dc)
   \<Longrightarrow> getServicesUsingAgent_loop c name agent (map (\<lambda>dc. \<lparr> Datacenter = dc \<rparr>) datacenters) allServices
       = Inr (allServices @ concat (map (\<lambda>dc. consulServicesToServices (results dc)) datacenters))"
  by (induction datacenters arbitrary: allServices) simp_all

lemma getServicesUsingAgent_loop_first_error:
  "\<forall>d \<in> set before. \<exists>r. Catalog_Service agent name (Tag c) \<lparr> Datacenter = d \<rparr> = Inr r
   \<Longrightarrow> Catalog_Service agent name (Tag c) \<lparr> Datacenter = dc \<rparr> = Inl err
   \<Longrightarrow> getServicesUsingAgent_loop c name agent
         (map (\<lambda>dc. \<lparr> Datacenter = dc \<rparr>) (before @ dc # after)) allServices
       = Inl err"
proof (induction before arbitrary: allServices)
  case Nil
  then show ?case by simp
next
  case (Cons d before)
  from Cons.prems(1) obtain r where "Catalog_Service agent name (Tag c) \<lparr> Datacenter = d \<rparr> = Inr r"
    by auto
  with Cons show ?case by simp
qed

text \<open>
  Claim C5. A failure of the datacenter discovery is the result of
  \<open>dcAwareQueriesForAllDCs\<close> and of \<open>getServicesUsingAgent\<close>. Otherwise there is one query
  per datacenter, in the order of the discovery. When the query of every datacenter
  succeeds, the result is the concatenation of the converted results in that order. When
  the query of a datacenter fails and those of the datacenters before it succeed, the result
  is that error alone: nothing of the results gathered so far is returned.
\<close>

theorem datacenter_fanout:
  "(\<forall>err. Catalog_Datacenters agent = Inl err \<longrightarrow>
       dcAwareQueriesForAllDCs agent = Inl err \<and> getServicesUsingAgent c name agent = Inl err)
   \<and> (\<forall>datacenters. Catalog_Datacenters agent = Inr datacenters \<longrightarrow>
        dcAwareQueriesForAllDCs agent = Inr (map (\<lambda>dc. \<lparr> Datacenter = dc \<rparr>) datacenters))
   \<and> (\<forall>datacenters results. Catalog_Datacenters agent = Inr datacenters \<longrightarrow>
        (\<forall>dc \<in> set datacenters.
            Catalog_Service agent name (Tag c) \<lparr> Datacenter = dc \<rparr> = Inr (results dc)) \<longrightarrow>
        getServicesUsingAgent c name agent
          = Inr (concat (map (\<lambda>dc. consulServicesToServices (results dc)) datacenters)))
   \<and> (\<forall>before dc after err. Catalog_Datacenters agent = Inr (before @ dc # after) \<longrightarrow>
        (\<forall>d \<in> set before. \<exists>r. Catalog_Service agent name (Tag c) \<lparr> Datacenter = d \<rparr> = Inr r) \<longrightarrow>
        Catalog_Service agent name (Tag c) \<lparr> Datacenter = dc \<rparr> = Inl err \<longrightarrow>
        getServicesUsingAgent c name agent = Inl err)"
proof (intro conjI allI impI)
  fix err
  assume "Catalog_Datacenters agent = Inl err"
  then show "dcAwareQueriesForAllDCs agent = Inl err" "getServicesUsingAgent c name agent = Inl err"
    by (simp_all add: getServicesUsingAgent_def dcAwareQueriesForAllDCs_def)
next
  fix datacenters
  assume "Catalog_Datacenters agent = Inr datacenters"
  then show "dcAwareQueriesForAllDCs agent = Inr (map (\<lambda>dc. \<lparr> Datacenter = dc \<rparr>) datacenters)"
    by (simp add: dcAwareQueriesForAllDCs_def)
next
  fix datacenters results
  assume d: "Catalog_Datacenters agent = Inr datacenters"
    and a: "\<forall>dc \<in> set datacenters.
            Catalog_Service agent name (Tag c) \<lparr> Datacenter = dc \<rparr> = Inr (results dc)"
  from getServicesUsingAgent_loop_all_succeed [OF a, of "[]"] d
  show "getServicesUsingAgent c name agent
          = Inr (concat (map (\<lambda>dc. consulServicesToServices (results dc)) datacenters))"
    by (simp add: getServicesUsingAgent_def dcAwareQueriesForAllDCs_def)
next
  fix before dc after err
  assume d: "Catalog_Datacenters agent = Inr (before @ dc # after)"
    and a: "\<forall>d \<in> set before. \<exists>r. Catalog_Service agent name (Tag c) \<lparr> Datacenter = d \<rparr> = Inr r"
    and e: "Catalog_Service agent name (Tag c) \<lparr> Datacenter = dc \<rparr> = Inl err"
  from getServicesUsingAgent_loop_first_error [OF a e, of after "[]"] d
  show "getServicesUsingAgent c name agent = Inl err"
    by (simp add: getServicesUsingAgent_def dcAwareQueriesForAllDCs_def)
qed

text \<open>The theorem at a client with three datacenters: all queries succeed; and the queries to
  the second and the third fail, where the error of the second is returned.\<close>

theorem datacenter_fanout_witness:
  "Catalog_Datacenters (example_client []) = Inr [''dc1'', ''dc2'', ''dc3'']
   \<and> getServicesUsingAgent example_config ''web'' (example_client [])
       = Inr (map consulServiceToService
           [example_instance ''a'' ''10.0.0.1'', example_instance ''b'' ''10.0.0.3'',
            example_instance ''c'' ''10.0.0.4''])
   \<and> Catalog_Datacenters (example_client [''dc2'', ''dc3'']) = Inr ([''dc1''] @ ''dc2'' # [''dc3''])
   \<and> Catalog_Service (example_client [''dc2'', ''dc3'']) ''web'' (Tag example_config) \<lparr> Datacenter = ''dc2'' \<rparr>
       = Inl (External ''no path to dc2'')
   \<and> getServicesUsingAgent example_config ''web'' (example_client [''dc2'', ''dc3''])
       = Inl (External ''no path to dc2'')"
proof -
  let ?results = "\<lambda>dc. if dc = ''dc1'' then [example_instance ''a'' ''10.0.0.1'']
      else if dc = ''dc2'' then []
      else [example_instance ''b'' ''10.0.0.3'', example_instance ''c'' ''10.0.0.4'']"
  have d: "Catalog_Datacenters (example_client []) = Inr [''dc1'', ''dc2'', ''dc3'']"
    by (simp add: example_client_def)
  have a: "\<forall>dc \<in> set [''dc1'', ''dc2'', ''dc3''].
      Catalog_Service (example_client []) ''web'' (Tag example_config) \<lparr> Datacenter = dc \<rparr>
        = Inr (?results dc)"
    by (simp add: example_client_def)
  note f = datacenter_fanout [of "example_client []" example_config "''web''"]
  from f have "\<forall>datacenters results. Catalog_Datacenters (example_client []) = Inr datacenters \<longrightarrow>
        (\<forall>dc \<in> set datacenters.
            Catalog_Service (example_client []) ''web'' (Tag example_config) \<lparr> Datacenter = dc \<rparr>
              = Inr (results dc)) \<longrightarrow>
        getServicesUsingAgent example_config ''web'' (example_client [])
          = Inr (concat (map (\<lambda>dc. consulServicesToServices (results dc)) datacenters))"
    by (elim conjE)
  from this [rule_format, OF d a [rule_format]]
  have ok: "getServicesUsingAgent example_config ''web'' (example_client [])
       = Inr (map consulServiceToService
           [example_instance ''a'' ''10.0.0.1'', example_instance ''b'' ''10.0.0.3'',
            example_instance ''c'' ''10.0.0.4''])"
    by (simp add: consulServicesToServices_def)
  have d2: "Catalog_Datacenters (example_client [''dc2'', ''dc3'']) = Inr ([''dc1''] @ ''dc2'' # [''dc3''])"
    by (simp add: example_client_def)
  have b: "\<forall>d \<in> set [''dc1'']. \<exists>r.
      Catalog_Service (example_client [''dc2'', ''dc3'']) ''web'' (Tag example_config) \<lparr> Datacenter = d \<rparr> = Inr r"
    by (simp add: example_client_def)
  have e: "Catalog_Service (example_client [''dc2'', ''dc3'']) ''web'' (Tag example_config) \<lparr> Datacenter = ''dc2'' \<rparr>
       = Inl (External ''no path to dc2'')"
    by (simp add: example_client_def)
  note g = datacenter_fanout [of "example_client [''dc2'', ''dc3'']" example_config "''web''"]
  from g have "\<forall>before dc after err.
        Catalog_Datacenters (example_client [''dc2'', ''dc3'']) = Inr (before @ dc # after) \<longrightarrow>
        (\<forall>d \<in> set before. \<exists>r. Catalog_Service (example_client [''dc2'', ''dc3'']) ''web''
            (Tag example_config) \<lparr> Datacenter = d \<rparr> = Inr r) \<longrightarrow>
        Catalog_Service (example_client [''dc2'', ''dc3'']) ''web'' (Tag example_config)
            \<lparr> Datacenter = dc \<rparr> = Inl err \<longrightarrow>
        getServicesUsingAgent example_config ''web'' (example_client [''dc2'', ''dc3'']) = Inl err"
    by (elim conjE)
  from this [rule_format, OF d2 b [rule_format] e]
  have bad: "getServicesUsingAgent example_config ''web'' (example_client [''dc2'', ''dc3''])
       = Inl (External ''no path to dc2'')" .
  from d ok d2 e bad show ?thesis by (intro conjI)
qed























lemma max_word32: "(4294967295 :: 32 word) = - 1"
  by simp

lemma loop_never_returns:
  fixes pool :: "'c Agents" and provide :: "nat \<Rightarrow> 'c \<Rightarrow> error + 'r"
  assumes "getServicesUsingProviderWithRetriesOnAgentFailure_loop c pick provide retry pool trace = Some y"
  shows "\<not> (c = example_unbounded_config \<and> (\<forall>n client. \<exists>err. provide n client = Inl err) \<and> pool \<noteq> [])"
proof (rule getServicesUsingProviderWithRetriesOnAgentFailure_loop.raw_induct
    [where P = "\<lambda>c pick provide retry pool trace y.
       \<not> (c = example_unbounded_config \<and> (\<forall>n client. \<exists>err. provide n client = Inl err) \<and> pool \<noteq> [])",
     OF _ assms])
  fix loop :: "Config \<Rightarrow> (nat \<Rightarrow> nat) \<Rightarrow> (nat \<Rightarrow> 'c \<Rightarrow> error + 'r) \<Rightarrow> 32 word \<Rightarrow> 'c Agents
     \<Rightarrow> invocation list \<Rightarrow> ((error + 'r) \<times> 'c Agents \<times> invocation list) option"
  fix c pick provide retry pool trace y
  assume IH: "\<And>c pick provide retry pool trace y.
      loop c pick provide retry pool trace = Some y \<Longrightarrow>
      \<not> (c = example_unbounded_config \<and> (\<forall>n client. \<exists>err. provide n client = Inl err) \<and> pool \<noteq> [])"
  assume body: "(if retry \<le> RequestRetries c
      then case GetAnyAgent pool (pick (length trace)) of
           Inl err \<Rightarrow> Some (Inl err, pool, trace)
           | Inr agent \<Rightarrow>
               (case provide (length trace) (agent_Client agent) of
               Inl err \<Rightarrow>
                 loop c pick provide (retry + 1)
                  (if AgentFailuresTolerance c < agent_failures (IncFailures agent)
                   then RemoveAgent (agent_IP agent) (store_agent (IncFailures agent) pool)
                   else store_agent (IncFailures agent) pool)
                  (trace @ [Failed (agent_IP agent) (agent_failures (IncFailures agent))])
               | Inr services \<Rightarrow>
                   Some (Inr services, store_agent (ClearFailures agent) pool,
                     trace @ [Succeeded (agent_IP agent)]))
      else Some (Inl GivingUp, pool, trace)) = Some y"
  show "\<not> (c = example_unbounded_config \<and> (\<forall>n client. \<exists>err. provide n client = Inl err) \<and> pool \<noteq> [])"
  proof
    assume a: "c = example_unbounded_config \<and> (\<forall>n client. \<exists>err. provide n client = Inl err) \<and> pool \<noteq> []"
    then have c: "c = example_unbounded_config" and p: "\<forall>n client. \<exists>err. provide n client = Inl err"
      and ne: "pool \<noteq> []" by simp_all
    from c have rr: "RequestRetries c = - 1" and tol: "AgentFailuresTolerance c = - 1"
      by (simp_all add: example_unbounded_config_def)
    from ne obtain agent where g: "GetAnyAgent pool (pick (length trace)) = Inr agent"
      by (auto simp: GetAnyAgent_def)
    from p obtain err where e: "provide (length trace) (agent_Client agent) = Inl err" by blast
    have le: "retry \<le> RequestRetries c" by (simp add: rr)
    have nlt: "\<not> AgentFailuresTolerance c < agent_failures (IncFailures agent)"
      by (simp add: tol word_order.extremum_strict)
    from body le g e nlt have r: "loop c pick provide (retry + 1) (store_agent (IncFailures agent) pool)
        (trace @ [Failed (agent_IP agent) (agent_failures (IncFailures agent))]) = Some y"
      by simp
    have "store_agent (IncFailures agent) pool \<noteq> []" using ne by (simp add: store_agent_def)
    with IH [OF r] c p show False by blast
  qed
qed

text \<open>
  Claim C1 fails on the code at \<open>RequestRetries = 4294967295\<close>. The loop condition of line 38,
  \<open>retry <= c.config.RequestRetries\<close>, then holds for every \<open>uint32\<close> value of \<open>retry\<close>, and
  \<open>retry++\<close> wraps around. With a provider that always fails and two agents that are never
  removed (\<open>AgentFailuresTolerance = 4294967295\<close>), the wrapper invokes the provider without
  bound and never returns.
\<close>

theorem retry_loop_unbounded_at_max_retries:
  "getServicesUsingProviderWithRetriesOnAgentFailure example_unbounded_config pick
     (\<lambda>n client. Inl (External ''agent down'') :: error + Service list)
     [example_agent ''10.0.0.1'' 0, example_agent ''10.0.0.2'' 0] = None"
proof (cases "getServicesUsingProviderWithRetriesOnAgentFailure example_unbounded_config pick
     (\<lambda>n client. Inl (External ''agent down'') :: error + Service list)
     [example_agent ''10.0.0.1'' 0, example_agent ''10.0.0.2'' 0]")
  case None
  then show ?thesis .
next
  case (Some y)
  then have "getServicesUsingProviderWithRetriesOnAgentFailure_loop example_unbounded_config pick
     (\<lambda>n client. Inl (External ''agent down'') :: error + Service list) 0
     [example_agent ''10.0.0.1'' 0, example_agent ''10.0.0.2'' 0] [] = Some y"
    by (simp add: getServicesUsingProviderWithRetriesOnAgentFailure_def)
  from loop_never_returns [OF this] show ?thesis by simp
qed


lemma unat_succ_not_max: "(w :: 32 word) \<noteq> - 1 \<Longrightarrow> unat (w + 1) = Suc (unat w)"
proof -
  assume "w \<noteq> - 1"
  then have "1 + w \<noteq> 0" by (simp add: eq_neg_iff_add_eq_0 add.commute)
  then have "unat (1 + w) = Suc (unat w)" by (rule unatSuc)
  then show ?thesis by (simp add: add.commute)
qed

lemma below_not_max: "(retry :: 32 word) \<le> r \<Longrightarrow> r \<noteq> - 1 \<Longrightarrow> retry \<noteq> - 1"
  using word_order.extremum_unique by blast

lemma retry_loop_bounded:
  fixes pool :: "'c Agents" and provide :: "nat \<Rightarrow> 'c \<Rightarrow> error + 'r"
  assumes "RequestRetries c \<noteq> - 1"
  shows "retry \<le> RequestRetries c + 1 \<Longrightarrow>
    \<exists>res pool' new.
      getServicesUsingProviderWithRetriesOnAgentFailure_loop c pick provide retry pool trace
        = Some (res, pool', trace @ new)
      \<and> length new \<le> unat (RequestRetries c) + 1 - unat retry
      \<and> (case res of
            Inr services \<Rightarrow>
              \<exists>fails ip client. new = fails @ [Succeeded ip] \<and> list_all is_Failed fails
                \<and> provide (length trace + length fails) client = Inr services
          | Inl err \<Rightarrow>
              list_all is_Failed new
              \<and> (err = GivingUp \<and> length new = unat (RequestRetries c) + 1 - unat retry
                 \<or> err = NoAgentsAvailable \<and> pool' = []))"
proof (induction "unat (RequestRetries c) + 1 - unat retry" arbitrary: retry pool trace rule: less_induct)
  case less
  note m = unat_succ_not_max [OF assms]
  show ?case
  proof (cases "retry \<le> RequestRetries c")
    case False
    then have "unat (RequestRetries c) < unat retry" by (simp add: word_le_nat_alt)
    moreover from less.prems have "unat retry \<le> Suc (unat (RequestRetries c))"
      by (simp add: word_le_nat_alt m)
    ultimately have z: "unat (RequestRetries c) + 1 - unat retry = 0" by simp
    have "getServicesUsingProviderWithRetriesOnAgentFailure_loop c pick provide retry pool trace
        = Some (Inl GivingUp, pool, trace @ [])"
      using False by (subst getServicesUsingProviderWithRetriesOnAgentFailure_loop.simps) simp
    with z show ?thesis by (intro exI [of _ "Inl GivingUp"] exI [of _ pool] exI [of _ "[]"]) simp
  next
    case le: True
    then have le': "unat retry \<le> unat (RequestRetries c)" by (simp add: word_le_nat_alt)
    show ?thesis
    proof (cases "GetAnyAgent pool (pick (length trace))")
      case (Inl err)
      then have e: "err = NoAgentsAvailable" and p: "pool = []"
        by (auto simp: GetAnyAgent_def split: if_splits)
      have "getServicesUsingProviderWithRetriesOnAgentFailure_loop c pick provide retry pool trace
          = Some (Inl err, pool, trace @ [])"
        using le Inl by (subst getServicesUsingProviderWithRetriesOnAgentFailure_loop.simps) simp
      with e p show ?thesis by (intro exI [of _ "Inl err"] exI [of _ pool] exI [of _ "[]"]) simp
    next
      case (Inr agent)
      show ?thesis
      proof (cases "provide (length trace) (agent_Client agent)")
        case ok: (Inr services)
        have "getServicesUsingProviderWithRetriesOnAgentFailure_loop c pick provide retry pool trace
          = Some (Inr services, store_agent (ClearFailures agent) pool,
                  trace @ [Succeeded (agent_IP agent)])"
          using le Inr ok by (subst getServicesUsingProviderWithRetriesOnAgentFailure_loop.simps) simp
        moreover have "\<exists>fails ip client. [Succeeded (agent_IP agent)] = fails @ [Succeeded ip]
            \<and> list_all is_Failed fails
            \<and> provide (length trace + length fails) client = Inr services"
          using ok by (intro exI [of _ "[]"] exI [of _ "agent_IP agent"] exI [of _ "agent_Client agent"]) simp
        ultimately show ?thesis
          using le'
          by (intro exI [of _ "Inr services"] exI [of _ "store_agent (ClearFailures agent) pool"]
              exI [of _ "[Succeeded (agent_IP agent)]"]) simp
      next
        case bad: (Inl err)
        let ?n = "agent_failures (IncFailures agent)"
        let ?pool2 = "if AgentFailuresTolerance c < ?n
                 then RemoveAgent (agent_IP agent) (store_agent (IncFailures agent) pool)
                 else store_agent (IncFailures agent) pool"
        let ?trace2 = "trace @ [Failed (agent_IP agent) ?n]"
        have nm: "retry \<noteq> - 1" using le assms by (rule below_not_max)
        have s: "unat (retry + 1) = Suc (unat retry)" using nm by (rule unat_succ_not_max)
        have step: "getServicesUsingProviderWithRetriesOnAgentFailure_loop c pick provide retry pool trace
          = getServicesUsingProviderWithRetriesOnAgentFailure_loop c pick provide (retry + 1) ?pool2 ?trace2"
          using le Inr bad by (subst getServicesUsingProviderWithRetriesOnAgentFailure_loop.simps) simp
        have dec: "unat (RequestRetries c) + 1 - unat (retry + 1) < unat (RequestRetries c) + 1 - unat retry"
          using le' s by simp
        have le2: "retry + 1 \<le> RequestRetries c + 1"
          using le' s m by (simp add: word_le_nat_alt)
        from less.hyps [OF dec le2, of ?pool2 ?trace2] obtain res pool' new2 where
          r: "getServicesUsingProviderWithRetriesOnAgentFailure_loop c pick provide (retry + 1) ?pool2 ?trace2
              = Some (res, pool', ?trace2 @ new2)"
          and l: "length new2 \<le> unat (RequestRetries c) + 1 - unat (retry + 1)"
          and k: "case res of
            Inr services \<Rightarrow>
              \<exists>fails ip client. new2 = fails @ [Succeeded ip] \<and> list_all is_Failed fails
                \<and> provide (length ?trace2 + length fails) client = Inr services
          | Inl err \<Rightarrow>
              list_all is_Failed new2
              \<and> (err = GivingUp \<and> length new2 = unat (RequestRetries c) + 1 - unat (retry + 1)
                 \<or> err = NoAgentsAvailable \<and> pool' = [])"
          by blast
        let ?new = "Failed (agent_IP agent) ?n # new2"
        from step r have r': "getServicesUsingProviderWithRetriesOnAgentFailure_loop c pick provide retry pool trace
            = Some (res, pool', trace @ ?new)" by simp
        from l le' s have l': "length ?new \<le> unat (RequestRetries c) + 1 - unat retry" by simp
        have k': "case res of
            Inr services \<Rightarrow>
              \<exists>fails ip client. ?new = fails @ [Succeeded ip] \<and> list_all is_Failed fails
                \<and> provide (length trace + length fails) client = Inr services
          | Inl err \<Rightarrow>
              list_all is_Failed ?new
              \<and> (err = GivingUp \<and> length ?new = unat (RequestRetries c) + 1 - unat retry
                 \<or> err = NoAgentsAvailable \<and> pool' = [])"
        proof (cases res)
          case (Inl err)
          with k le' s show ?thesis by (auto simp: is_Failed_def)
        next
          case (Inr services)
          with k obtain fails ip client where
            n: "new2 = fails @ [Succeeded ip]" and f: "list_all is_Failed fails"
            and p: "provide (length ?trace2 + length fails) client = Inr services"
            by auto
          have "?new = (Failed (agent_IP agent) ?n # fails) @ [Succeeded ip]" using n by simp
          moreover have "list_all is_Failed (Failed (agent_IP agent) ?n # fails)"
            using f by (simp add: is_Failed_def)
          moreover have "provide (length trace + length (Failed (agent_IP agent) ?n # fails)) client
              = Inr services" using p by simp
          ultimately have "\<exists>fails ip client. ?new = fails @ [Succeeded ip] \<and> list_all is_Failed fails
                \<and> provide (length trace + length fails) client = Inr services"
            by blast
          with Inr show ?thesis by simp
        qed
        from r' l' k' show ?thesis by blast
      qed
    qed
  qed
qed

text \<open>
  For every other value of \<open>RequestRetries\<close> the wrapper returns after at most
  \<open>RequestRetries + 1\<close> invocations of the provider. It returns the services of the first
  successful invocation, all invocations before it having failed; or, when every invocation
  failed, the giving-up error after exactly \<open>RequestRetries + 1\<close> invocations, or the error
  of \<open>GetAnyAgent\<close> on a pool that has become empty.
\<close>

lemma retry_bounded:
  fixes pool :: "'c Agents" and provide :: "nat \<Rightarrow> 'c \<Rightarrow> error + 'r"
  assumes "RequestRetries c \<noteq> - 1"
  shows "\<exists>res pool' trace.
      getServicesUsingProviderWithRetriesOnAgentFailure c pick provide pool = Some (res, pool', trace)
      \<and> length trace \<le> unat (RequestRetries c) + 1
      \<and> (case res of
            Inr services \<Rightarrow>
              \<exists>fails ip client. trace = fails @ [Succeeded ip] \<and> list_all is_Failed fails
                \<and> provide (length fails) client = Inr services
          | Inl err \<Rightarrow>
              list_all is_Failed trace
              \<and> (err = GivingUp \<and> length trace = unat (RequestRetries c) + 1
                 \<or> err = NoAgentsAvailable \<and> pool' = []))"
proof -
  from retry_loop_bounded [OF assms, of 0 pick provide pool "[]"] obtain res pool' new where
    r: "getServicesUsingProviderWithRetriesOnAgentFailure_loop c pick provide 0 pool []
        = Some (res, pool', [] @ new)"
    and l: "length new \<le> unat (RequestRetries c) + 1 - unat (0 :: 32 word)"
    and k: "case res of
            Inr services \<Rightarrow>
              \<exists>fails ip client. new = fails @ [Succeeded ip] \<and> list_all is_Failed fails
                \<and> provide (length ([] :: invocation list) + length fails) client = Inr services
          | Inl err \<Rightarrow>
              list_all is_Failed new
              \<and> (err = GivingUp \<and> length new = unat (RequestRetries c) + 1 - unat (0 :: 32 word)
                 \<or> err = NoAgentsAvailable \<and> pool' = [])"
    by auto
  from r have r': "getServicesUsingProviderWithRetriesOnAgentFailure c pick provide pool
      = Some (res, pool', new)"
    by (simp add: getServicesUsingProviderWithRetriesOnAgentFailure_def)
  from l have l': "length new \<le> unat (RequestRetries c) + 1" by simp
  from k have k': "case res of
            Inr services \<Rightarrow>
              \<exists>fails ip client. new = fails @ [Succeeded ip] \<and> list_all is_Failed fails
                \<and> provide (length fails) client = Inr services
          | Inl err \<Rightarrow>
              list_all is_Failed new
              \<and> (err = GivingUp \<and> length new = unat (RequestRetries c) + 1
                 \<or> err = NoAgentsAvailable \<and> pool' = [])"
    by (cases res) simp_all
  from r' l' k' show ?thesis by blast
qed





end
